theory Spec2Isabelle
  imports Main "HOL-Library.Sublist"
begin

section \<open>Resources declared by the stacks\<close>

text \<open>
  The repository is three CDK stack constructors. Each one declares resources and wires
  them together: tables, compute units, grants, an edge distribution and (in two of them)
  a build-and-deploy pipeline. A stack is embedded as the record of what its constructor
  declares, field by field and in source order. Constructs are referred to by the
  identifier the source gives them (\<open>'ProductsTable'\<close>, \<open>'ProductsFunction'\<close>, ...).

  Attribute values that are only known at deployment (\<open>productsTable.tableName\<close>,
  \<open>ecrRepository.repositoryArn\<close>, \<open>this.region\<close>) are kept symbolic.
\<close>

datatype token =
    Lit string
  | Attr string string
  | Region

datatype attribute_type = BINARY | NUMBER | STRING

record table =
  tableId :: string
  partitionKeyName :: string
  partitionKeyType :: attribute_type

text \<open>
  A compute unit is a Lambda function (\<open>new lambda.Function\<close>) or the container of a
  Fargate task definition (\<open>taskDefinition.addContainer\<close>).
\<close>

datatype compute_kind =
    LambdaFunction string string string
  | FargateContainer string string

record compute_unit =
  unitId :: string
  unitKind :: compute_kind
  environment :: "(string \<times> token) list"

datatype principal = RoleOf string

text \<open>
  The identity a compute unit runs as: a function is its own grantee
  (\<open>grantReadWriteData(productsFunction)\<close>), a container runs under the task role of its
  task definition (\<open>taskDefinition.taskRole\<close>).
\<close>

fun executionIdentity :: "compute_unit \<Rightarrow> principal" where
  "executionIdentity u =
     (case unitKind u of
        LambdaFunction _ _ _ \<Rightarrow> RoleOf (unitId u)
      | FargateContainer taskDef _ \<Rightarrow> RoleOf taskDef)"

record api_resource =
  pathPart :: string
  methods :: "(string \<times> string) list"

datatype origin =
    S3Origin string
  | HttpOrigin "token list"
  | LoadBalancerV2Origin string

datatype allowed_methods = ALLOW_GET_HEAD | ALLOW_GET_HEAD_OPTIONS | ALLOW_ALL

datatype viewer_protocol_policy = HTTPS_ONLY | REDIRECT_TO_HTTPS | ALLOW_ALL_PROTOCOLS

datatype cache_policy = CACHING_OPTIMIZED | CACHING_DISABLED

record behavior =
  origin :: origin
  allowedMethods :: "allowed_methods option"
  viewerProtocolPolicy :: viewer_protocol_policy
  cachePolicy :: "cache_policy option"

record distribution =
  defaultBehavior :: behavior
  additionalBehaviors :: "(string \<times> behavior) list"

datatype artifact_files = FileList "string list" | FilePattern string

record build_spec =
  version :: string
  phases :: "(string \<times> string list) list"
  artifacts :: artifact_files

record build_project =
  projectId :: string
  privileged :: bool
  buildSpec :: build_spec
  environmentVariables :: "(string \<times> token) list"

datatype pipeline_action =
    GitHubSourceAction string string string string
  | CodeBuildAction string string
  | EcsDeployAction string string
  | LambdaInvokeAction string string "(string \<times> token) list"

record stage =
  stageName :: string
  actions :: "pipeline_action list"

record pipeline =
  pipelineName :: string
  stages :: "stage list"

record policy_statement =
  statementActions :: "string list"
  statementResources :: "token list"

record stack =
  bucket :: string
  tables :: "table list"
  repositories :: "string list"
  computeUnits :: "compute_unit list"
  readWriteDataGrants :: "(string \<times> principal) list"
  apiResources :: "api_resource list"
  cdn :: distribution
  buildProjects :: "build_project list"
  pipelines :: "pipeline list"
  pullPushGrants :: "(string \<times> principal) list"
  rolePolicyStatements :: "(principal \<times> policy_statement) list"

subsection \<open>Pieces shared by the three constructors\<close>

definition productsTable :: table where
  "productsTable =
     \<lparr>tableId = ''ProductsTable'', partitionKeyName = ''productId'', partitionKeyType = STRING\<rparr>"

definition ordersTable :: table where
  "ordersTable =
     \<lparr>tableId = ''OrdersTable'', partitionKeyName = ''orderId'', partitionKeyType = STRING\<rparr>"

definition cartTable :: table where
  "cartTable =
     \<lparr>tableId = ''CartTable'', partitionKeyName = ''cartId'', partitionKeyType = STRING\<rparr>"

definition tableName :: "table \<Rightarrow> token" where
  "tableName t = Attr (tableId t) ''tableName''"

definition tableArn :: "string \<Rightarrow> token" where
  "tableArn t = Attr t ''tableArn''"

definition repositoryArn :: "string \<Rightarrow> token" where
  "repositoryArn r = Attr r ''repositoryArn''"

definition repositoryUri :: "string \<Rightarrow> token" where
  "repositoryUri r = Attr r ''repositoryUri''"

definition functionArn :: "string \<Rightarrow> token" where
  "functionArn f = Attr f ''functionArn''"

definition productsFunction :: compute_unit where
  "productsFunction =
     \<lparr>unitId = ''ProductsFunction'',
      unitKind = LambdaFunction ''NODEJS_16_X'' ''index.handler'' ''lambda/products'',
      environment = [(''PRODUCTS_TABLE'', tableName productsTable)]\<rparr>"

definition ordersFunction :: compute_unit where
  "ordersFunction =
     \<lparr>unitId = ''OrdersFunction'',
      unitKind = LambdaFunction ''NODEJS_16_X'' ''index.handler'' ''lambda/orders'',
      environment = [(''ORDERS_TABLE'', tableName ordersTable)]\<rparr>"

definition cartFunction :: compute_unit where
  "cartFunction =
     \<lparr>unitId = ''CartFunction'',
      unitKind = LambdaFunction ''NODEJS_16_X'' ''index.handler'' ''lambda/cart'',
      environment = [(''CART_TABLE'', tableName cartTable)]\<rparr>"

definition container :: compute_unit where
  "container =
     \<lparr>unitId = ''WooCommerceContainer'',
      unitKind = FargateContainer ''WooCommerceTaskDef'' ''WooCommerceRepo'',
      environment =
        [(''PRODUCTS_TABLE'', tableName productsTable),
         (''ORDERS_TABLE'', tableName ordersTable),
         (''CART_TABLE'', tableName cartTable)]\<rparr>"

definition productsResource :: api_resource where
  "productsResource =
     \<lparr>pathPart = ''products'',
      methods = [(''GET'', ''ProductsFunction''), (''POST'', ''ProductsFunction'')]\<rparr>"

definition ordersResource :: api_resource where
  "ordersResource =
     \<lparr>pathPart = ''orders'',
      methods = [(''GET'', ''OrdersFunction''), (''POST'', ''OrdersFunction'')]\<rparr>"

definition cartResource :: api_resource where
  "cartResource =
     \<lparr>pathPart = ''cart'',
      methods = [(''GET'', ''CartFunction''), (''POST'', ''CartFunction'')]\<rparr>"

definition apiOrigin :: origin where
  "apiOrigin =
     HttpOrigin [Attr ''WooCommerceApi'' ''restApiId'', Lit ''.execute-api.'', Region,
                 Lit ''.amazonaws.com'']"

definition staticBehavior :: behavior where
  "staticBehavior =
     \<lparr>origin = S3Origin ''WooCommerceAssets'', allowedMethods = None,
      viewerProtocolPolicy = REDIRECT_TO_HTTPS, cachePolicy = None\<rparr>"

definition gatewayDistribution :: distribution where
  "gatewayDistribution =
     \<lparr>defaultBehavior = staticBehavior,
      additionalBehaviors =
        [(''/api/products/*'',
          \<lparr>origin = apiOrigin, allowedMethods = Some ALLOW_ALL,
           viewerProtocolPolicy = HTTPS_ONLY, cachePolicy = Some CACHING_OPTIMIZED\<rparr>),
         (''/api/orders/*'',
          \<lparr>origin = apiOrigin, allowedMethods = Some ALLOW_ALL,
           viewerProtocolPolicy = HTTPS_ONLY, cachePolicy = Some CACHING_DISABLED\<rparr>),
         (''/api/cart/*'',
          \<lparr>origin = apiOrigin, allowedMethods = Some ALLOW_ALL,
           viewerProtocolPolicy = HTTPS_ONLY, cachePolicy = Some CACHING_DISABLED\<rparr>)]\<rparr>"

definition containerDistribution :: distribution where
  "containerDistribution =
     \<lparr>defaultBehavior = staticBehavior,
      additionalBehaviors =
        [(''/api/*'',
          \<lparr>origin = LoadBalancerV2Origin ''WooCommerceService'',
           allowedMethods = Some ALLOW_ALL,
           viewerProtocolPolicy = HTTPS_ONLY, cachePolicy = Some CACHING_DISABLED\<rparr>)]\<rparr>"

text \<open>The command strings of the build specification, as the source writes them.\<close>

definition installCommands :: "string list" where
  \<open>installCommands = [''echo "Installing dependencies"'', ''npm install'']\<close>

definition preBuildCommands :: "string list" where
  \<open>preBuildCommands =
     [''echo "Logging in to Amazon ECR"'',
      ''aws ecr get-login-password --region $AWS_DEFAULT_REGION | docker login --username AWS --password-stdin $REPOSITORY_URI'']\<close>

definition buildCommands :: "string list" where
  \<open>buildCommands =
     [''echo "Building Docker image"'',
      ''docker build -t $REPOSITORY_URI:latest .'',
      ''docker tag $REPOSITORY_URI:latest $REPOSITORY_URI:$CODEBUILD_RESOLVED_SOURCE_VERSION'']\<close>

definition pushCommands :: "string list" where
  \<open>pushCommands =
     [''echo "Pushing Docker image"'',
      ''docker push $REPOSITORY_URI:latest'',
      ''docker push $REPOSITORY_URI:$CODEBUILD_RESOLVED_SOURCE_VERSION'']\<close>

definition writeImageDefinitions :: string where
  \<open>writeImageDefinitions =
     ''printf '[{"name":"WooCommerceContainer","imageUri":"%s"}]' $REPOSITORY_URI:$CODEBUILD_RESOLVED_SOURCE_VERSION > imagedefinitions.json''\<close>

definition imageDefinitionsCommands :: "string list" where
  \<open>imageDefinitionsCommands =
     [''echo "Writing image definitions file"'', writeImageDefinitions]\<close>

definition functionBuildSpec :: build_spec where
  "functionBuildSpec =
     \<lparr>version = ''0.2'',
      phases =
        [(''install'', installCommands),
         (''pre_build'', preBuildCommands),
         (''build'', buildCommands),
         (''post_build'', pushCommands)],
      artifacts = FilePattern ''**/*''\<rparr>"

definition containerBuildSpec :: build_spec where
  "containerBuildSpec =
     \<lparr>version = ''0.2'',
      phases =
        [(''install'', installCommands),
         (''pre_build'', preBuildCommands),
         (''build'', buildCommands),
         (''post_build'', pushCommands @ imageDefinitionsCommands)],
      artifacts = FileList [''imagedefinitions.json'']\<rparr>"

definition buildProject :: "build_spec \<Rightarrow> build_project" where
  "buildProject spec =
     \<lparr>projectId = ''BuildProject'', privileged = True, buildSpec = spec,
      environmentVariables = [(''REPOSITORY_URI'', repositoryUri ''WooCommerceRepo'')]\<rparr>"

definition sourceAction :: pipeline_action where
  "sourceAction =
     GitHubSourceAction ''GitHub_Source'' ''your-github-username'' ''your-repo-name'' ''main''"

definition buildAction :: pipeline_action where
  "buildAction = CodeBuildAction ''CodeBuild'' ''BuildProject''"

definition mkPipeline :: "pipeline_action \<Rightarrow> pipeline" where
  "mkPipeline deployAction =
     \<lparr>pipelineName = ''WooCommercePipeline'',
      stages =
        [\<lparr>stageName = ''Source'', actions = [sourceAction]\<rparr>,
         \<lparr>stageName = ''Build'', actions = [buildAction]\<rparr>,
         \<lparr>stageName = ''Deploy'', actions = [deployAction]\<rparr>]\<rparr>"

definition ecrStatement :: policy_statement where
  "ecrStatement =
     \<lparr>statementActions =
        [''ecr:GetDownloadUrlForLayer'', ''ecr:BatchGetImage'', ''ecr:CompleteLayerUpload''],
      statementResources = [repositoryArn ''WooCommerceRepo'']\<rparr>"

subsection \<open>The three stacks\<close>

text \<open>\<open>cdk-woocommerce/lib/cdk-woocommerce-stack.ts\<close>: gateway and functions, no pipeline.\<close>

definition CdkWoocommerceStack :: stack where
  "CdkWoocommerceStack =
     \<lparr>bucket = ''WooCommerceAssets'',
      tables = [productsTable, ordersTable, cartTable],
      repositories = [],
      computeUnits = [productsFunction, ordersFunction, cartFunction],
      readWriteDataGrants =
        [(''ProductsTable'', executionIdentity productsFunction),
         (''OrdersTable'', executionIdentity ordersFunction),
         (''CartTable'', executionIdentity cartFunction)],
      apiResources = [productsResource, ordersResource, cartResource],
      cdn = gatewayDistribution,
      buildProjects = [],
      pipelines = [],
      pullPushGrants = [],
      rolePolicyStatements = []\<rparr>"

text \<open>
  \<open>cdk-woocommerce/lib/cdk-woocommerce-cicd-stack.ts\<close>: gateway and functions, with a
  pipeline whose Deploy stage invokes the products function.
\<close>

definition CdkWoocommerceStack1 :: stack where
  "CdkWoocommerceStack1 =
     \<lparr>bucket = ''WooCommerceAssets'',
      tables = [productsTable, ordersTable, cartTable],
      repositories = [''WooCommerceRepo''],
      computeUnits = [productsFunction, ordersFunction, cartFunction],
      readWriteDataGrants =
        [(''ProductsTable'', executionIdentity productsFunction),
         (''OrdersTable'', executionIdentity ordersFunction),
         (''CartTable'', executionIdentity cartFunction)],
      apiResources = [productsResource, ordersResource, cartResource],
      cdn = gatewayDistribution,
      buildProjects = [buildProject functionBuildSpec],
      pipelines =
        [mkPipeline
           (LambdaInvokeAction ''Deploy'' ''ProductsFunction''
              [(''productsFunctionArn'', functionArn ''ProductsFunction''),
               (''ordersFunctionArn'', functionArn ''OrdersFunction''),
               (''cartFunctionArn'', functionArn ''CartFunction'')])],
      pullPushGrants = [(''WooCommerceRepo'', RoleOf ''BuildProject'')],
      rolePolicyStatements = [(RoleOf ''BuildProject'', ecrStatement)]\<rparr>"

text \<open>
  \<open>cdk-woocommerce-cicd/lib/cdk-woocommerce-cicd-stack.ts\<close>: one container service behind
  a load balancer, with a pipeline whose Deploy stage rolls the service.
\<close>

definition CdkWoocommerceCicdStack :: stack where
  "CdkWoocommerceCicdStack =
     \<lparr>bucket = ''WooCommerceAssets'',
      tables = [productsTable, ordersTable, cartTable],
      repositories = [''WooCommerceRepo''],
      computeUnits = [container],
      readWriteDataGrants =
        [(''ProductsTable'', RoleOf ''WooCommerceTaskDef''),
         (''OrdersTable'', RoleOf ''WooCommerceTaskDef''),
         (''CartTable'', RoleOf ''WooCommerceTaskDef'')],
      apiResources = [],
      cdn = containerDistribution,
      buildProjects = [buildProject containerBuildSpec],
      pipelines = [mkPipeline (EcsDeployAction ''Deploy'' ''WooCommerceService'')],
      pullPushGrants = [(''WooCommerceRepo'', RoleOf ''BuildProject'')],
      rolePolicyStatements = [(RoleOf ''BuildProject'', ecrStatement)]\<rparr>"

definition topologies :: "stack list" where
  "topologies = [CdkWoocommerceStack, CdkWoocommerceStack1, CdkWoocommerceCicdStack]"

section \<open>Permission derivation\<close>

record grant_statement =
  grantee :: principal
  grantActions :: "string list"
  grantResources :: "token list"

definition readActions :: "string list" where
  "readActions = [''get'', ''query'', ''scan'']"

definition writeActions :: "string list" where
  "writeActions = [''put'', ''update'', ''delete'']"

text \<open>
  Modelled from the spec: \<open>grantReadWriteData\<close> is a method of the CDK library, whose code
  is not part of the repository. The spec gives what a call \<open>T.grantReadWriteData(g)\<close>
  stands for: one statement granting \<open>g\<close> the actions get, put, update, delete, query and
  scan, scoped to the resource identifier of \<open>T\<close>.
\<close>

definition grantReadWriteData :: "string \<Rightarrow> principal \<Rightarrow> grant_statement" where
  "grantReadWriteData t g =
     \<lparr>grantee = g,
      grantActions = [''get'', ''put'', ''update'', ''delete'', ''query'', ''scan''],
      grantResources = [tableArn t]\<rparr>"

text \<open>
  Modelled from the spec: \<open>grantPullPush\<close> is a method of the CDK library as well; a call
  \<open>R.grantPullPush(g)\<close> stands for one statement granting \<open>g\<close> pull and push on \<open>R\<close>.
\<close>

definition grantPullPush :: "string \<Rightarrow> principal \<Rightarrow> grant_statement" where
  "grantPullPush r g =
     \<lparr>grantee = g, grantActions = [''pull'', ''push''], grantResources = [repositoryArn r]\<rparr>"

text \<open>\<open>addToRolePolicy\<close> attaches the statement the source writes out to the role.\<close>

definition addToRolePolicy :: "principal \<Rightarrow> policy_statement \<Rightarrow> grant_statement" where
  "addToRolePolicy g st =
     \<lparr>grantee = g, grantActions = statementActions st,
      grantResources = statementResources st\<rparr>"

definition derive_reads_writes :: "stack \<Rightarrow> grant_statement list" where
  "derive_reads_writes G = map (\<lambda>(t, g). grantReadWriteData t g) (readWriteDataGrants G)"

definition derive_triggers :: "stack \<Rightarrow> grant_statement list" where
  "derive_triggers G =
     map (\<lambda>(r, g). grantPullPush r g) (pullPushGrants G) @
     map (\<lambda>(g, st). addToRolePolicy g st) (rolePolicyStatements G)"

definition derive :: "stack \<Rightarrow> grant_statement list" where
  "derive G = derive_reads_writes G @ derive_triggers G"

text \<open>
  Modelled from the spec: the grant calls of a stack do not return statements, they add
  them to the policy of the grantee's role, an object of the CDK library whose code is not
  part of the repository. The spec makes the derived grants a set of statements (no
  accumulation, no duplicate grants): \<open>emit\<close> adds a statement to a policy unless the
  policy holds it already, and \<open>runGrants\<close> performs the grant calls of a stack, in the
  order of \<open>derive\<close>, on the policy it is given.
\<close>

definition emit :: "grant_statement \<Rightarrow> grant_statement list \<Rightarrow> grant_statement list" where
  "emit st policy = (if st \<in> set policy then policy else policy @ [st])"

definition runGrants :: "stack \<Rightarrow> grant_statement list \<Rightarrow> grant_statement list" where
  "runGrants G policy = fold emit (derive G) policy"

text \<open>
  A compute unit has a \<open>reads_writes\<close> edge to a table when the stack calls
  \<open>grantReadWriteData\<close> on that table with the unit's execution identity.
\<close>

definition reads_writes :: "stack \<Rightarrow> compute_unit \<Rightarrow> string \<Rightarrow> bool" where
  "reads_writes G C T \<longleftrightarrow> (T, executionIdentity C) \<in> set (readWriteDataGrants G)"

definition grantsOf :: "stack \<Rightarrow> principal \<Rightarrow> grant_statement list" where
  "grantsOf G g = filter (\<lambda>st. grantee st = g) (derive G)"

text \<open>The tables a compute unit's environment names, and the tables it is granted.\<close>

fun tableOfToken :: "token \<Rightarrow> string list" where
  "tableOfToken (Attr t a) = (if a = ''tableName'' then [t] else [])"
| "tableOfToken _ = []"

definition environmentTables :: "compute_unit \<Rightarrow> string list" where
  "environmentTables u = concat (map (\<lambda>(k, v). tableOfToken v) (environment u))"

definition grantedTables :: "stack \<Rightarrow> compute_unit \<Rightarrow> string list" where
  "grantedTables G u =
     map fst (filter (\<lambda>(t, g). g = executionIdentity u) (readWriteDataGrants G))"

section \<open>Routing and caching rules\<close>

text \<open>
  The distribution's \<open>additionalBehaviors\<close> are its path-pattern rules; the
  \<open>defaultBehavior\<close> serves every path none of them matches.

  Modelled from the spec: matching a request path against the rules is done by the edge
  service, not by code of the repository. The spec gives the order (the first matching
  pattern wins, the wildcard default last); in a pattern \<open>*\<close> stands for any run of
  characters and \<open>?\<close> for exactly one.
\<close>

fun glob :: "string \<Rightarrow> string \<Rightarrow> bool" where
  "glob [] s = (s = [])"
| "glob (p # ps) [] = (p = CHR ''*'' \<and> glob ps [])"
| "glob (p # ps) (c # cs) =
     (if p = CHR ''*'' then glob ps (c # cs) \<or> glob (p # ps) cs
      else (p = CHR ''?'' \<or> p = c) \<and> glob ps cs)"

definition matchingBehaviors :: "distribution \<Rightarrow> string \<Rightarrow> (string \<times> behavior) list" where
  "matchingBehaviors d path = filter (\<lambda>(pat, b). glob pat path) (additionalBehaviors d)"

definition resolve :: "distribution \<Rightarrow> string \<Rightarrow> behavior" where
  "resolve d path =
     (case matchingBehaviors d path of [] \<Rightarrow> defaultBehavior d | (pat, b) # _ \<Rightarrow> b)"

text \<open>
  The rule set of a distribution is its path-pattern rules followed by the default rule,
  which stands for the pattern \<open>*\<close>. A behaviour that declares no cache policy gets the
  default of the CDK library; that default is not part of the repository, so it is the
  parameter \<open>dflt\<close> of \<open>effectiveCachePolicy\<close>.
\<close>

definition rules :: "distribution \<Rightarrow> (string \<times> behavior) list" where
  "rules d = additionalBehaviors d @ [(''*'', defaultBehavior d)]"

definition effectiveCachePolicy :: "cache_policy \<Rightarrow> behavior \<Rightarrow> cache_policy" where
  "effectiveCachePolicy dflt b = (case cachePolicy b of None \<Rightarrow> dflt | Some p \<Rightarrow> p)"

text \<open>
  An API resource is write-capable when it accepts a method other than the safe ones.
  The paths of a resource named \<open>n\<close> are the ones under \<open>/api/n/\<close>.
\<close>

definition writeCapable :: "api_resource \<Rightarrow> bool" where
  "writeCapable r = list_ex (\<lambda>(m, f). m \<notin> set [''GET'', ''HEAD'', ''OPTIONS'']) (methods r)"

definition endpointPath :: "api_resource \<Rightarrow> string \<Rightarrow> string" where
  "endpointPath r rest = ''/api/'' @ pathPart r @ ''/'' @ rest"

section \<open>Pipeline executions\<close>

text \<open>
  Modelled from the spec: the stacks only declare the pipeline (its stages, in order, and
  the build specification); the service that executes it is not part of the repository.
  The spec gives the state machine: an execution starts in the first stage, a stage that
  succeeds hands over to the next one (the last one to \<open>Succeeded\<close>), a stage that fails
  moves the execution to \<open>Failed\<close>, and \<open>Succeeded\<close> and \<open>Failed\<close> are terminal.
\<close>

datatype exec_state = InStage string | Succeeded | Failed

fun nextStage :: "string list \<Rightarrow> string \<Rightarrow> string option" where
  "nextStage [] s = None"
| "nextStage [x] s = None"
| "nextStage (x # y # ys) s = (if x = s then Some y else nextStage (y # ys) s)"

definition trigger :: "pipeline \<Rightarrow> exec_state" where
  "trigger p = (case stages p of [] \<Rightarrow> Succeeded | s # _ \<Rightarrow> InStage (stageName s))"

fun advance :: "pipeline \<Rightarrow> exec_state \<Rightarrow> bool \<Rightarrow> exec_state" where
  "advance p (InStage s) ok =
     (if ok then (case nextStage (map stageName (stages p)) s of
                    Some s' \<Rightarrow> InStage s'
                  | None \<Rightarrow> Succeeded)
      else Failed)"
| "advance p Succeeded ok = Succeeded"
| "advance p Failed ok = Failed"

text \<open>The states an execution goes through, given the outcome of each step in turn.\<close>

fun run :: "pipeline \<Rightarrow> exec_state \<Rightarrow> bool list \<Rightarrow> exec_state list" where
  "run p s [] = [s]"
| "run p s (ok # oks) = s # run p (advance p s ok) oks"

fun stageOf :: "exec_state \<Rightarrow> string list" where
  "stageOf (InStage s) = [s]"
| "stageOf _ = []"

definition stagesVisited :: "exec_state list \<Rightarrow> string list" where
  "stagesVisited tr = concat (map stageOf tr)"

section \<open>The Build stage\<close>

subsection \<open>Build commands\<close>

text \<open>
  The commands of a build specification are shell commands. The shell that runs them is not
  part of the repository; its rules are followed for what the commands of the source use:
  words separated by blanks, single and double quotes, \<open>$NAME\<close> parameters (not inside
  single quotes), \<open>> file\<close>, and the built-ins \<open>echo\<close> and \<open>printf\<close> with its \<open>%s\<close>
  directive. Every other command is an external program (\<open>npm\<close>, \<open>aws\<close>, \<open>docker\<close>):
  whether it succeeds is a parameter \<open>ok\<close>, and what it leaves in the workspace is not
  modelled. Values of parameters are taken to be free of blanks and of pattern characters,
  as repository addresses and commit identifiers are, so an expanded word is not split
  again.
\<close>

datatype quoting = Bare | Single | Double

type_synonym word = "(char \<times> quoting) list"

fun tag :: "quoting \<Rightarrow> string \<Rightarrow> word" where
  "tag q [] = []"
| "tag Bare (c # cs) =
     (if c = CHR 0x27 then tag Single cs
      else if c = CHR 0x22 then tag Double cs
      else (c, Bare) # tag Bare cs)"
| "tag Single (c # cs) = (if c = CHR 0x27 then tag Bare cs else (c, Single) # tag Single cs)"
| "tag Double (c # cs) = (if c = CHR 0x22 then tag Bare cs else (c, Double) # tag Double cs)"

fun fields :: "word \<Rightarrow> word \<Rightarrow> word list" where
  "fields w [] = (if w = [] then [] else [w])"
| "fields w (x # xs) =
     (if x = (CHR '' '', Bare) then (if w = [] then fields [] xs else w # fields [] xs)
      else fields (w @ [x]) xs)"

definition nameChar :: "char \<Rightarrow> bool" where
  "nameChar c \<longleftrightarrow>
     c \<in> set ''ABCDEFGHIJKLMNOPQRSTUVWXYZabcdefghijklmnopqrstuvwxyz0123456789_''"

definition lookupVar :: "(string \<rightharpoonup> string) \<Rightarrow> string \<Rightarrow> string" where
  "lookupVar env n =
     (if n = [] then ''$'' else (case env n of None \<Rightarrow> [] | Some v \<Rightarrow> v))"

text \<open>
  \<open>expand env None w\<close> replaces the parameters of the word \<open>w\<close>; the second argument is
  the parameter name being read, if any, with the quoting of its \<open>$\<close>.
\<close>

fun expand :: "(string \<rightharpoonup> string) \<Rightarrow> (string \<times> quoting) option \<Rightarrow> word \<Rightarrow> string" where
  "expand env None [] = []"
| "expand env (Some (n, q0)) [] = lookupVar env n"
| "expand env None ((c, q) # cs) =
     (if c = CHR ''$'' \<and> q \<noteq> Single then expand env (Some ([], q)) cs
      else c # expand env None cs)"
| "expand env (Some (n, q0)) ((c, q) # cs) =
     (if nameChar c \<and> q = q0 then expand env (Some (n @ [c], q0)) cs
      else lookupVar env n @
        (if c = CHR ''$'' \<and> q \<noteq> Single then expand env (Some ([], q)) cs
         else c # expand env None cs))"

fun splitRedirect :: "word list \<Rightarrow> word list \<times> word option" where
  "splitRedirect [] = ([], None)"
| "splitRedirect [w] = ([w], None)"
| "splitRedirect (w # f # ws) =
     (if w = [(CHR ''>'', Bare)] then ([], Some f)
      else (case splitRedirect (f # ws) of (a, t) \<Rightarrow> (w # a, t)))"

definition argv :: "(string \<rightharpoonup> string) \<Rightarrow> string \<Rightarrow> string list" where
  "argv env cmd = map (expand env None) (fst (splitRedirect (fields [] (tag Bare cmd))))"

definition target :: "(string \<rightharpoonup> string) \<Rightarrow> string \<Rightarrow> string option" where
  "target env cmd = map_option (expand env None) (snd (splitRedirect (fields [] (tag Bare cmd))))"

fun printfOutput :: "string \<Rightarrow> string list \<Rightarrow> string" where
  "printfOutput [] args = []"
| "printfOutput [c] args = [c]"
| "printfOutput (c # d # cs) args =
     (if c = CHR ''%'' \<and> d = CHR ''s'' then
        (case args of [] \<Rightarrow> printfOutput cs [] | a # as \<Rightarrow> a @ printfOutput cs as)
      else if c = CHR ''%'' \<and> d = CHR ''%'' then CHR ''%'' # printfOutput cs args
      else c # printfOutput (d # cs) args)"

fun echoOutput :: "string list \<Rightarrow> string" where
  "echoOutput [] = [CHR 0x0A]"
| "echoOutput [a] = a @ [CHR 0x0A]"
| "echoOutput (a # b # as) = a @ CHR '' '' # echoOutput (b # as)"

text \<open>What a command prints, or \<open>None\<close> when it fails.\<close>

definition commandOutput :: "(string \<Rightarrow> bool) \<Rightarrow> (string \<rightharpoonup> string) \<Rightarrow> string \<Rightarrow> string option" where
  "commandOutput ok env cmd =
     (case argv env cmd of
        [] \<Rightarrow> Some []
      | prog # args \<Rightarrow>
          if prog = ''echo'' then Some (echoOutput args)
          else if prog = ''printf'' then
            (case args of [] \<Rightarrow> None | fmt # as \<Rightarrow> Some (printfOutput fmt as))
          else if ok cmd then Some [] else None)"

definition runCommand ::
  "(string \<Rightarrow> bool) \<Rightarrow> (string \<rightharpoonup> string) \<Rightarrow> (string \<rightharpoonup> string) \<Rightarrow> string \<Rightarrow>
   (string \<rightharpoonup> string) option" where
  "runCommand ok env files cmd =
     (case commandOutput ok env cmd of
        None \<Rightarrow> None
      | Some text \<Rightarrow>
          Some (case target env cmd of None \<Rightarrow> files | Some f \<Rightarrow> files(f \<mapsto> text)))"

subsection \<open>Phases\<close>

text \<open>
  Modelled from the spec: the build service that runs the phases is not part of the
  repository. The spec gives its rule: the phases run in the order of the list, and a
  failure in any phase aborts the remaining phases of the stage, which fails. The state of
  a build is the list of commands run so far and the files written.
\<close>

type_synonym build_state = "string list \<times> (string \<rightharpoonup> string)"

fun runCommands ::
  "(string \<Rightarrow> bool) \<Rightarrow> (string \<rightharpoonup> string) \<Rightarrow> build_state \<Rightarrow> string list \<Rightarrow> build_state \<times> bool" where
  "runCommands ok env st [] = (st, True)"
| "runCommands ok env (executed, files) (c # cs) =
     (case runCommand ok env files c of
        None \<Rightarrow> ((executed @ [c], files), False)
      | Some files' \<Rightarrow> runCommands ok env (executed @ [c], files') cs)"

fun runPhases ::
  "(string \<Rightarrow> bool) \<Rightarrow> (string \<rightharpoonup> string) \<Rightarrow> build_state \<Rightarrow> (string \<times> string list) list \<Rightarrow>
   build_state \<times> string option" where
  "runPhases ok env st [] = (st, None)"
| "runPhases ok env st ((name, cmds) # ps) =
     (case runCommands ok env st cmds of
        (st', True) \<Rightarrow> runPhases ok env st' ps
      | (st', False) \<Rightarrow> (st', Some name))"

datatype artifact = OutputTree string | OutputFiles "(string \<times> string) list"

fun collectFiles :: "(string \<rightharpoonup> string) \<Rightarrow> string list \<Rightarrow> (string \<times> string) list option" where
  "collectFiles files [] = Some []"
| "collectFiles files (n # ns) =
     (case files n of
        None \<Rightarrow> None
      | Some text \<Rightarrow> map_option ((#) (n, text)) (collectFiles files ns))"

fun collectArtifacts :: "(string \<rightharpoonup> string) \<Rightarrow> artifact_files \<Rightarrow> artifact option" where
  "collectArtifacts files (FilePattern pat) = Some (OutputTree pat)"
| "collectArtifacts files (FileList ns) = map_option OutputFiles (collectFiles files ns)"

datatype build_result =
    BuildFailed string "string list"
  | BuildSucceeded "string list" artifact

definition buildStage ::
  "(string \<Rightarrow> bool) \<Rightarrow> (string \<rightharpoonup> string) \<Rightarrow> build_spec \<Rightarrow> build_result" where
  "buildStage ok env spec =
     (case runPhases ok env ([], Map.empty) (phases spec) of
        ((executed, files), Some phase) \<Rightarrow> BuildFailed phase executed
      | ((executed, files), None) \<Rightarrow>
          (case collectArtifacts files (artifacts spec) of
             None \<Rightarrow> BuildFailed ''UPLOAD_ARTIFACTS'' executed
           | Some a \<Rightarrow> BuildSucceeded executed a))"

fun succeeded :: "build_result \<Rightarrow> bool" where
  "succeeded (BuildSucceeded executed a) = True"
| "succeeded (BuildFailed phase executed) = False"

text \<open>
  The environment of a build: the variables the project declares, with their deployed
  values \<open>val\<close>, and the two the build service provides.
\<close>

definition buildEnv ::
  "(token \<Rightarrow> string) \<Rightarrow> build_project \<Rightarrow> string \<Rightarrow> string \<Rightarrow> (string \<rightharpoonup> string)" where
  "buildEnv val project region revision =
     map_of (map (\<lambda>(k, v). (k, val v)) (environmentVariables project) @
             [(''AWS_DEFAULT_REGION'', region),
              (''CODEBUILD_RESOLVED_SOURCE_VERSION'', revision)])"

definition commandsOf :: "build_spec \<Rightarrow> string list" where
  "commandsOf spec = concat (map snd (phases spec))"

subsection \<open>The deployment descriptor\<close>

text \<open>
  Modelled from the spec: the Deploy stage of the container topology reads the descriptor
  the Build stage writes, a list of \<open>{logical container name, image URI}\<close> pairs, and
  rejects a malformed one. The reader below accepts the compact form
  \<open>[{"name":"N","imageUri":"U"},...]\<close>, with names and URIs free of quotes.
\<close>

definition stripPrefix :: "string \<Rightarrow> string \<Rightarrow> string option" where
  "stripPrefix p s = (if take (length p) s = p then Some (drop (length p) s) else None)"

definition readString :: "string \<Rightarrow> (string \<times> string) option" where
  "readString s =
     (if CHR 0x22 \<in> set s
      then Some (takeWhile (\<lambda>c. c \<noteq> CHR 0x22) s, drop 1 (dropWhile (\<lambda>c. c \<noteq> CHR 0x22) s))
      else None)"

definition parseEntry :: "string \<Rightarrow> ((string \<times> string) \<times> string) option" where
  \<open>parseEntry s =
     (case stripPrefix ''{"name":"'' s of
        None \<Rightarrow> None
      | Some s1 \<Rightarrow>
          (case readString s1 of
             None \<Rightarrow> None
           | Some (n, s2) \<Rightarrow>
               (case stripPrefix '',"imageUri":"'' s2 of
                  None \<Rightarrow> None
                | Some s3 \<Rightarrow>
                    (case readString s3 of
                       None \<Rightarrow> None
                     | Some (u, s4) \<Rightarrow>
                         (case stripPrefix ''}'' s4 of
                            None \<Rightarrow> None
                          | Some s5 \<Rightarrow> Some ((n, u), s5))))))\<close>

text \<open>Entries are read with the length of the text as fuel: each entry consumes some.\<close>

fun parseEntries :: "nat \<Rightarrow> string \<Rightarrow> (string \<times> string) list option" where
  "parseEntries 0 s = None"
| "parseEntries (Suc k) s =
     (case parseEntry s of
        None \<Rightarrow> None
      | Some (e, rest) \<Rightarrow>
          if rest = '']'' then Some [e]
          else (case stripPrefix '','' rest of
                  None \<Rightarrow> None
                | Some rest' \<Rightarrow> map_option ((#) e) (parseEntries k rest')))"

definition parseDescriptor :: "string \<Rightarrow> (string \<times> string) list option" where
  "parseDescriptor s =
     (if s = ''[]'' then Some []
      else (case stripPrefix ''['' s of
              None \<Rightarrow> None
            | Some s1 \<Rightarrow> parseEntries (length s1) s1))"

subsection \<open>Notions used in the statements\<close>

text \<open>
  The external programs among a list of commands (those that are not shell built-ins), and
  the plain values a build works with: repository addresses and revisions made of letters,
  digits and \<open>_ . - / :\<close>.
\<close>

definition builtin :: "string \<Rightarrow> bool" where
  "builtin cmd =
     (case argv Map.empty cmd of [] \<Rightarrow> True | prog # _ \<Rightarrow> prog \<in> set [''echo'', ''printf''])"

definition programs :: "string list \<Rightarrow> string list" where
  "programs cmds = filter (\<lambda>c. \<not> builtin c) cmds"

definition plainValue :: "string \<Rightarrow> bool" where
  "plainValue v = list_all (\<lambda>c. nameChar c \<or> c \<in> set ''.-/:'') v"

text \<open>What a command that succeeds leaves in the workspace.\<close>

definition writes ::
  "(string \<Rightarrow> bool) \<Rightarrow> (string \<rightharpoonup> string) \<Rightarrow> string \<Rightarrow> (string \<rightharpoonup> string) \<Rightarrow>
   (string \<rightharpoonup> string)" where
  "writes ok env c files =
     (case target env c of
        None \<Rightarrow> files
      | Some f \<Rightarrow> files(f \<mapsto> the (commandOutput ok env c)))"

section \<open>Properties of the derived grants\<close>

lemmas stack_defs =
  CdkWoocommerceStack_def CdkWoocommerceStack1_def CdkWoocommerceCicdStack_def
  productsFunction_def ordersFunction_def cartFunction_def container_def
  productsTable_def ordersTable_def cartTable_def tableName_def

lemmas derive_defs =
  derive_def derive_reads_writes_def derive_triggers_def
  grantReadWriteData_def grantPullPush_def addToRolePolicy_def
  tableArn_def repositoryArn_def ecrStatement_def

lemma edge_statement:
  assumes "reads_writes G C T"
  shows "\<exists>st \<in> set (derive G). grantee st = executionIdentity C \<and>
           set (grantActions st) = set readActions \<union> set writeActions \<and>
           grantResources st = [tableArn T]"
proof -
  let ?st = "grantReadWriteData T (executionIdentity C)"
  from assms have "?st \<in> set (derive_reads_writes G)"
    unfolding reads_writes_def derive_reads_writes_def by force
  then have "?st \<in> set (derive G)"
    by (simp add: derive_def)
  moreover have "set (grantActions ?st) = set readActions \<union> set writeActions"
    by (auto simp: grantReadWriteData_def readActions_def writeActions_def)
  moreover have "grantee ?st = executionIdentity C" and "grantResources ?st = [tableArn T]"
    by (simp_all add: grantReadWriteData_def)
  ultimately show ?thesis by blast
qed

lemma statement_edge:
  assumes "st \<in> set (derive_reads_writes G)"
  shows "\<exists>T. grantResources st = [tableArn T] \<and> (T, grantee st) \<in> set (readWriteDataGrants G)"
  using assms by (auto simp: derive_reads_writes_def grantReadWriteData_def)

lemma topologies_no_leak:
  assumes "G \<in> set topologies" and "st \<in> set (derive G)"
    and "tableArn T \<in> set (grantResources st)"
  shows "(T, grantee st) \<in> set (readWriteDataGrants G)"
  using assms by (auto simp: topologies_def stack_defs derive_defs)

text \<open>
  C1. Whenever a compute unit \<open>C\<close> has a \<open>reads_writes\<close> edge to a table \<open>T\<close>, the derived
  grants hold a statement for the execution identity of \<open>C\<close> with the read and the write
  data actions, scoped to the resource identifier of \<open>T\<close> and nothing else. Every statement
  derived from such edges is scoped to exactly one table, the one of its edge. In the three
  stacks of the repository no statement gives \<open>C\<close> a table it has no edge to. In the
  topology of three tables and three functions, each wired to one table, the derivation
  yields exactly three statements, one per table.
\<close>

theorem derive_reads_writes_scoped:
  "(reads_writes G C T \<longrightarrow>
      (\<exists>st \<in> set (derive G). grantee st = executionIdentity C \<and>
         set (grantActions st) = set readActions \<union> set writeActions \<and>
         grantResources st = [tableArn T])) \<and>
   (\<forall>st \<in> set (derive_reads_writes G).
      \<exists>T'. grantResources st = [tableArn T'] \<and> (T', grantee st) \<in> set (readWriteDataGrants G)) \<and>
   (G \<in> set topologies \<and> \<not> reads_writes G C T \<longrightarrow>
      \<not> (\<exists>st \<in> set (derive G). grantee st = executionIdentity C \<and>
            tableArn T \<in> set (grantResources st))) \<and>
   derive CdkWoocommerceStack =
     [grantReadWriteData ''ProductsTable'' (executionIdentity productsFunction),
      grantReadWriteData ''OrdersTable'' (executionIdentity ordersFunction),
      grantReadWriteData ''CartTable'' (executionIdentity cartFunction)] \<and>
   derive_reads_writes CdkWoocommerceStack1 = derive CdkWoocommerceStack \<and>
   map partitionKeyName (tables CdkWoocommerceStack) = [''productId'', ''orderId'', ''cartId'']"
proof (intro conjI impI ballI)
  assume "reads_writes G C T"
  then show "\<exists>st \<in> set (derive G). grantee st = executionIdentity C \<and>
         set (grantActions st) = set readActions \<union> set writeActions \<and>
         grantResources st = [tableArn T]"
    by (rule edge_statement)
next
  fix st assume "st \<in> set (derive_reads_writes G)"
  then show "\<exists>T'. grantResources st = [tableArn T'] \<and> (T', grantee st) \<in> set (readWriteDataGrants G)"
    by (rule statement_edge)
next
  assume a: "G \<in> set topologies \<and> \<not> reads_writes G C T"
  show "\<not> (\<exists>st \<in> set (derive G). grantee st = executionIdentity C \<and>
            tableArn T \<in> set (grantResources st))"
  proof
    assume "\<exists>st \<in> set (derive G). grantee st = executionIdentity C \<and>
            tableArn T \<in> set (grantResources st)"
    then obtain st where "st \<in> set (derive G)" and g: "grantee st = executionIdentity C"
      and "tableArn T \<in> set (grantResources st)" by blast
    with a have "(T, grantee st) \<in> set (readWriteDataGrants G)"
      using topologies_no_leak by blast
    with g a show False by (simp add: reads_writes_def)
  qed
next
  show "derive CdkWoocommerceStack =
     [grantReadWriteData ''ProductsTable'' (executionIdentity productsFunction),
      grantReadWriteData ''OrdersTable'' (executionIdentity ordersFunction),
      grantReadWriteData ''CartTable'' (executionIdentity cartFunction)]"
    by (simp add: derive_def derive_reads_writes_def derive_triggers_def CdkWoocommerceStack_def)
next
  show "derive_reads_writes CdkWoocommerceStack1 = derive CdkWoocommerceStack"
    by (simp add: derive_def derive_reads_writes_def derive_triggers_def
        CdkWoocommerceStack_def CdkWoocommerceStack1_def)
next
  show "map partitionKeyName (tables CdkWoocommerceStack) = [''productId'', ''orderId'', ''cartId'']"
    by (simp add: stack_defs)
qed

theorem derive_reads_writes_scoped_witness:
  "reads_writes CdkWoocommerceStack productsFunction ''ProductsTable'' \<and>
   (\<exists>st \<in> set (derive CdkWoocommerceStack).
      grantee st = RoleOf ''ProductsFunction'' \<and>
      grantResources st = [tableArn ''ProductsTable'']) \<and>
   \<not> reads_writes CdkWoocommerceStack productsFunction ''OrdersTable'' \<and>
   \<not> (\<exists>st \<in> set (derive CdkWoocommerceStack).
        grantee st = RoleOf ''ProductsFunction'' \<and>
        tableArn ''OrdersTable'' \<in> set (grantResources st))"
proof -
  have e: "reads_writes CdkWoocommerceStack productsFunction ''ProductsTable''"
    by (simp add: reads_writes_def stack_defs)
  have n: "\<not> reads_writes CdkWoocommerceStack productsFunction ''OrdersTable''"
    by (simp add: reads_writes_def stack_defs)
  have m: "CdkWoocommerceStack \<in> set topologies"
    by (simp add: topologies_def)
  have i: "executionIdentity productsFunction = RoleOf ''ProductsFunction''"
    by (simp add: productsFunction_def)
  from derive_reads_writes_scoped[of CdkWoocommerceStack productsFunction "''ProductsTable''"] e
  have "\<exists>st \<in> set (derive CdkWoocommerceStack).
      grantee st = RoleOf ''ProductsFunction'' \<and> grantResources st = [tableArn ''ProductsTable'']"
    unfolding i by blast
  moreover
  from derive_reads_writes_scoped[of CdkWoocommerceStack productsFunction "''OrdersTable''"] n m
  have "\<not> (\<exists>st \<in> set (derive CdkWoocommerceStack).
        grantee st = RoleOf ''ProductsFunction'' \<and>
        tableArn ''OrdersTable'' \<in> set (grantResources st))"
    unfolding i by blast
  ultimately show ?thesis using e n by blast
qed

text \<open>
  C7. In both stacks with a pipeline the build identity is granted, for the image
  repository, pull and push (the library grant) and the three actions of the statement the
  source writes out (complete-layer-upload, get-download-url, batch-get-image); these are
  all its statements, and each is scoped to the resource identifier of that one repository.
\<close>

theorem build_identity_grants:
  "pullPushGrants CdkWoocommerceCicdStack = [(''WooCommerceRepo'', RoleOf ''BuildProject'')] \<and>
   pullPushGrants CdkWoocommerceStack1 = [(''WooCommerceRepo'', RoleOf ''BuildProject'')] \<and>
   concat (map grantActions (grantsOf CdkWoocommerceCicdStack (RoleOf ''BuildProject''))) =
     [''pull'', ''push'', ''ecr:GetDownloadUrlForLayer'', ''ecr:BatchGetImage'',
      ''ecr:CompleteLayerUpload''] \<and>
   map grantResources (grantsOf CdkWoocommerceCicdStack (RoleOf ''BuildProject'')) =
     [[repositoryArn ''WooCommerceRepo''], [repositoryArn ''WooCommerceRepo'']] \<and>
   grantsOf CdkWoocommerceStack1 (RoleOf ''BuildProject'') =
     grantsOf CdkWoocommerceCicdStack (RoleOf ''BuildProject'') \<and>
   repositories CdkWoocommerceCicdStack = [''WooCommerceRepo''] \<and>
   repositories CdkWoocommerceStack1 = [''WooCommerceRepo'']"
  by (simp add: grantsOf_def derive_defs stack_defs)

lemma set_emit: "set (emit st P) = insert st (set P)"
  by (auto simp: emit_def)

lemma distinct_emit: "distinct P \<Longrightarrow> distinct (emit st P)"
  by (simp add: emit_def)

lemma set_fold_emit: "set (fold emit xs P) = set P \<union> set xs"
  by (induction xs arbitrary: P) (auto simp: set_emit)

lemma distinct_fold_emit: "distinct P \<Longrightarrow> distinct (fold emit xs P)"
  by (induction xs arbitrary: P) (simp_all add: distinct_emit)

lemma fold_emit_present:
  assumes "set xs \<subseteq> set P"
  shows "fold emit xs P = P"
  using assms by (induction xs arbitrary: P) (simp_all add: emit_def)

lemma fold_emit_fresh:
  assumes "distinct xs" and "set xs \<inter> set P = {}"
  shows "fold emit xs P = P @ xs"
  using assms
proof (induction xs arbitrary: P)
  case Nil
  then show ?case by simp
next
  case (Cons x xs)
  then have "emit x P = P @ [x]" by (simp add: emit_def)
  moreover from Cons.prems have "set xs \<inter> set (P @ [x]) = {}" by auto
  ultimately show ?case using Cons by simp
qed

text \<open>
  C9. Running the grant calls of a stack a second time, on the policy the first run left,
  changes nothing: the policy after two runs is the policy after one, so it holds the same
  statements and has the same length, nothing accumulates. A run adds the statements the
  stack derives to those the policy held and nothing else; it introduces no duplicate,
  and from the empty policy its result has no duplicate statement, for every stack, also
  one that repeats a grant call. For the three stacks of the repository a run from the
  empty policy gives the derived statements, each once, in the order of the calls.
\<close>

theorem derive_idempotent:
  "runGrants G (runGrants G P) = runGrants G P \<and>
   set (runGrants G P) = set P \<union> set (derive G) \<and>
   length (runGrants G (runGrants G P)) = length (runGrants G P) \<and>
   (distinct P \<longrightarrow> distinct (runGrants G P)) \<and>
   distinct (runGrants G []) \<and>
   (G \<in> set topologies \<longrightarrow> runGrants G [] = derive G)"
proof -
  have A: "runGrants G (runGrants G P) = runGrants G P"
    unfolding runGrants_def by (rule fold_emit_present) (simp add: set_fold_emit)
  have B: "set (runGrants G P) = set P \<union> set (derive G)"
    by (simp add: runGrants_def set_fold_emit)
  have C: "distinct P \<longrightarrow> distinct (runGrants G P)"
    by (simp add: runGrants_def distinct_fold_emit)
  have D: "distinct (runGrants G [])"
    by (simp add: runGrants_def distinct_fold_emit)
  have E: "G \<in> set topologies \<longrightarrow> runGrants G [] = derive G"
  proof
    assume "G \<in> set topologies"
    then have "distinct (derive G)"
      by (auto simp: topologies_def stack_defs derive_defs)
    then show "runGrants G [] = derive G"
      unfolding runGrants_def using fold_emit_fresh[of "derive G" "[]"] by simp
  qed
  from A B C D E show ?thesis by simp
qed

theorem derive_idempotent_witness:
  "distinct (derive CdkWoocommerceCicdStack) \<and>
   CdkWoocommerceCicdStack \<in> set topologies \<and>
   runGrants CdkWoocommerceCicdStack [] = derive CdkWoocommerceCicdStack \<and>
   runGrants CdkWoocommerceCicdStack (derive CdkWoocommerceCicdStack) =
     derive CdkWoocommerceCicdStack \<and>
   length (derive CdkWoocommerceCicdStack @ derive CdkWoocommerceCicdStack) = 10 \<and>
   length (runGrants CdkWoocommerceCicdStack (runGrants CdkWoocommerceCicdStack [])) = 5 \<and>
   distinct (runGrants CdkWoocommerceCicdStack (derive CdkWoocommerceCicdStack))"
proof -
  have m: "CdkWoocommerceCicdStack \<in> set topologies"
    by (simp add: topologies_def)
  have l: "length (derive CdkWoocommerceCicdStack) = 5"
    by (simp add: derive_defs CdkWoocommerceCicdStack_def)
  have d: "distinct (derive CdkWoocommerceCicdStack)"
    by (simp add: derive_defs CdkWoocommerceCicdStack_def)
  note t0 = derive_idempotent[of CdkWoocommerceCicdStack "[]"]
  note t1 = derive_idempotent[of CdkWoocommerceCicdStack "derive CdkWoocommerceCicdStack"]
  from t0 m have fresh: "runGrants CdkWoocommerceCicdStack [] = derive CdkWoocommerceCicdStack"
    by blast
  from t0 have again: "runGrants CdkWoocommerceCicdStack (runGrants CdkWoocommerceCicdStack []) =
      runGrants CdkWoocommerceCicdStack []"
    by blast
  from t1 d have d2: "distinct (runGrants CdkWoocommerceCicdStack (derive CdkWoocommerceCicdStack))"
    by blast
  from fresh again l d m d2 show ?thesis by simp
qed

text \<open>
  C10. In every stack the tables a compute unit's environment names are exactly the tables
  its execution identity is granted: each function has one variable, holding the name of
  its own table, and the container has the names of all three tables.
\<close>

theorem environment_matches_grants:
  "(\<forall>S \<in> set topologies. \<forall>u \<in> set (computeUnits S). environmentTables u = grantedTables S u) \<and>
   map environment (computeUnits CdkWoocommerceStack) =
     [[(''PRODUCTS_TABLE'', tableName productsTable)],
      [(''ORDERS_TABLE'', tableName ordersTable)],
      [(''CART_TABLE'', tableName cartTable)]] \<and>
   computeUnits CdkWoocommerceStack1 = computeUnits CdkWoocommerceStack \<and>
   map environmentTables (computeUnits CdkWoocommerceStack) =
     [[''ProductsTable''], [''OrdersTable''], [''CartTable'']] \<and>
   map environmentTables (computeUnits CdkWoocommerceCicdStack) =
     [[''ProductsTable'', ''OrdersTable'', ''CartTable'']]"
  by (simp add: topologies_def stack_defs environmentTables_def grantedTables_def)

theorem environment_matches_grants_witness:
  "container \<in> set (computeUnits CdkWoocommerceCicdStack) \<and>
   environmentTables container = grantedTables CdkWoocommerceCicdStack container \<and>
   grantedTables CdkWoocommerceCicdStack container = [''ProductsTable'', ''OrdersTable'', ''CartTable'']"
proof -
  have m: "CdkWoocommerceCicdStack \<in> set topologies"
    by (simp add: topologies_def)
  have u: "container \<in> set (computeUnits CdkWoocommerceCicdStack)"
    by (simp add: CdkWoocommerceCicdStack_def)
  from environment_matches_grants m u
  have "environmentTables container = grantedTables CdkWoocommerceCicdStack container"
    by blast
  moreover have "grantedTables CdkWoocommerceCicdStack container =
      [''ProductsTable'', ''OrdersTable'', ''CartTable'']"
    by (simp add: grantedTables_def stack_defs)
  ultimately show ?thesis using u by blast
qed

section \<open>Properties of the routing rules\<close>

lemma glob_star: "glob ''*'' s"
  by (induction s) simp_all

lemma glob_literal_star:
  assumes "CHR ''*'' \<notin> set lit" and "CHR ''?'' \<notin> set lit"
  shows "glob (lit @ ''*'') s \<longleftrightarrow> prefix lit s"
  using assms
proof (induction lit arbitrary: s)
  case Nil
  then show ?case using glob_star by simp
next
  case (Cons a lit)
  then show ?case by (cases s) auto
qed

lemma glob_products: "glob ''/api/products/*'' s \<longleftrightarrow> prefix ''/api/products/'' s"
  using glob_literal_star[of "''/api/products/''" s] by simp

lemma glob_orders: "glob ''/api/orders/*'' s \<longleftrightarrow> prefix ''/api/orders/'' s"
  using glob_literal_star[of "''/api/orders/''" s] by simp

lemma glob_cart: "glob ''/api/cart/*'' s \<longleftrightarrow> prefix ''/api/cart/'' s"
  using glob_literal_star[of "''/api/cart/''" s] by simp

lemma prefixes_clash:
  "\<not> (prefix ''/api/products/'' path \<and> prefix ''/api/orders/'' path)"
  "\<not> (prefix ''/api/products/'' path \<and> prefix ''/api/cart/'' path)"
  "\<not> (prefix ''/api/orders/'' path \<and> prefix ''/api/cart/'' path)"
  by (auto dest: prefix_same_cases)

lemma gateway_member:
  assumes "(p, b) \<in> set (additionalBehaviors gatewayDistribution)"
  shows "(p = ''/api/products/*'' \<or> p = ''/api/orders/*'' \<or> p = ''/api/cart/*'') \<and>
         b = the (map_of (additionalBehaviors gatewayDistribution) p)"
  using assms unfolding gatewayDistribution_def by auto

lemma gateway_match:
  assumes "(p, b) \<in> set (additionalBehaviors gatewayDistribution)" and "glob p path"
  shows "(p = ''/api/products/*'' \<and> prefix ''/api/products/'' path) \<or>
         (p = ''/api/orders/*'' \<and> prefix ''/api/orders/'' path) \<or>
         (p = ''/api/cart/*'' \<and> prefix ''/api/cart/'' path)"
proof -
  from gateway_member[OF assms(1)]
  consider "p = ''/api/products/*''" | "p = ''/api/orders/*''" | "p = ''/api/cart/*''"
    by blast
  then show ?thesis
  proof cases
    case 1
    with assms(2) have "prefix ''/api/products/'' path"
      using glob_products[of path] by blast
    with 1 show ?thesis by blast
  next
    case 2
    with assms(2) have "prefix ''/api/orders/'' path"
      using glob_orders[of path] by blast
    with 2 show ?thesis by blast
  next
    case 3
    with assms(2) have "prefix ''/api/cart/'' path"
      using glob_cart[of path] by blast
    with 3 show ?thesis by blast
  qed
qed

lemma gateway_patterns_disjoint:
  assumes "(p1, b1) \<in> set (additionalBehaviors gatewayDistribution)"
    and "(p2, b2) \<in> set (additionalBehaviors gatewayDistribution)"
    and "glob p1 path" and "glob p2 path"
  shows "p1 = p2 \<and> b1 = b2"
proof -
  have "p1 = p2"
    using gateway_match[OF assms(1,3)] gateway_match[OF assms(2,4)] prefixes_clash[of path]
    by blast
  moreover have "b1 = the (map_of (additionalBehaviors gatewayDistribution) p1)"
    and "b2 = the (map_of (additionalBehaviors gatewayDistribution) p2)"
    using gateway_member[OF assms(1)] gateway_member[OF assms(2)] by blast+
  ultimately show ?thesis by simp
qed

lemma container_patterns_disjoint:
  assumes "(p1, b1) \<in> set (additionalBehaviors containerDistribution)"
    and "(p2, b2) \<in> set (additionalBehaviors containerDistribution)"
  shows "p1 = p2 \<and> b1 = b2"
  using assms unfolding containerDistribution_def by simp

lemma topologies_cdn:
  assumes "S \<in> set topologies"
  shows "cdn S = gatewayDistribution \<or> cdn S = containerDistribution"
proof -
  from assms consider "S = CdkWoocommerceStack" | "S = CdkWoocommerceStack1"
    | "S = CdkWoocommerceCicdStack"
    unfolding topologies_def by auto
  then show ?thesis
    by cases (simp_all add: CdkWoocommerceStack_def CdkWoocommerceStack1_def
        CdkWoocommerceCicdStack_def)
qed

lemma resolve_products:
  "cachePolicy (resolve gatewayDistribution (endpointPath productsResource rest)) =
     Some CACHING_OPTIMIZED"
  by (simp add: resolve_def matchingBehaviors_def gatewayDistribution_def endpointPath_def
      productsResource_def glob_star)

lemma resolve_orders:
  "cachePolicy (resolve gatewayDistribution (endpointPath ordersResource rest)) =
     Some CACHING_DISABLED"
  by (simp add: resolve_def matchingBehaviors_def gatewayDistribution_def endpointPath_def
      ordersResource_def glob_star)

lemma resolve_cart:
  "cachePolicy (resolve gatewayDistribution (endpointPath cartResource rest)) =
     Some CACHING_DISABLED"
  by (simp add: resolve_def matchingBehaviors_def gatewayDistribution_def endpointPath_def
      cartResource_def glob_star)

lemma resolve_container_api:
  "resolve containerDistribution (''/api/'' @ rest) =
     \<lparr>origin = LoadBalancerV2Origin ''WooCommerceService'', allowedMethods = Some ALLOW_ALL,
      viewerProtocolPolicy = HTTPS_ONLY, cachePolicy = Some CACHING_DISABLED\<rparr>"
  by (simp add: resolve_def matchingBehaviors_def containerDistribution_def glob_star)

lemma resources_write_capable:
  "writeCapable productsResource" "writeCapable ordersResource" "writeCapable cartResource"
  by (simp_all add: writeCapable_def productsResource_def ordersResource_def cartResource_def)

lemma resources_differ:
  "ordersResource \<noteq> productsResource" "cartResource \<noteq> productsResource"
  by (simp_all add: productsResource_def ordersResource_def cartResource_def)

lemma topologies_resources:
  assumes "S \<in> set topologies" and "r \<in> set (apiResources S)"
  shows "cdn S = gatewayDistribution \<and>
         (r = productsResource \<or> r = ordersResource \<or> r = cartResource)"
proof -
  from assms(1) consider "S = CdkWoocommerceStack" | "S = CdkWoocommerceStack1"
    | "S = CdkWoocommerceCicdStack"
    unfolding topologies_def by auto
  then show ?thesis
    using assms(2)
    by cases (auto simp: CdkWoocommerceStack_def CdkWoocommerceStack1_def
        CdkWoocommerceCicdStack_def)
qed

lemma resolve_first_match:
  "resolve d path = snd (hd (filter (\<lambda>(pat, b). glob pat path) (rules d)))"
proof (cases "matchingBehaviors d path")
  case Nil
  then show ?thesis
    by (simp add: resolve_def rules_def matchingBehaviors_def glob_star)
next
  case (Cons x xs)
  then show ?thesis
    by (cases x) (simp add: resolve_def rules_def matchingBehaviors_def)
qed

lemma resolve_own_path:
  "resolve gatewayDistribution (''/api/'' @ pathPart productsResource) =
     defaultBehavior gatewayDistribution"
  "resolve gatewayDistribution (''/api/'' @ pathPart ordersResource) =
     defaultBehavior gatewayDistribution"
  "resolve gatewayDistribution (''/api/'' @ pathPart cartResource) =
     defaultBehavior gatewayDistribution"
  by (simp_all add: resolve_def matchingBehaviors_def gatewayDistribution_def
      productsResource_def ordersResource_def cartResource_def)

lemma default_policy:
  assumes "S \<in> set topologies"
  shows "cachePolicy (defaultBehavior (cdn S)) = None"
proof -
  from topologies_cdn[OF assms] have "defaultBehavior (cdn S) = staticBehavior"
    by (auto simp: gatewayDistribution_def containerDistribution_def)
  then show ?thesis
    by (simp add: staticBehavior_def)
qed

text \<open>
  C2, as the spec states it, fails in both halves. The rule set holds the default rule,
  which matches every path: \<open>/api/orders/7\<close> is matched by \<open>/api/orders/*\<close>, whose cache
  policy is Disabled, and by the default rule, which declares none and so gets the default
  of the library; \<open>/api/products/42\<close> is matched by \<open>/api/products/*\<close>, Optimized, and by
  the default rule. Whichever of the two policies the library's default is, one of these
  paths is matched by two rules whose policies in force differ. The products resource
  accepts \<open>POST\<close>, and its paths resolve to \<open>/api/products/*\<close>, whose cache policy is
  Optimized. The path \<open>/api/orders\<close> of the orders resource itself is matched by no
  pattern and resolves to the default rule, which does not declare Disabled.
\<close>

theorem write_endpoint_cached_counterexample:
  "(''/api/orders/*'', resolve (cdn CdkWoocommerceStack) ''/api/orders/7'')
     \<in> set (rules (cdn CdkWoocommerceStack)) \<and>
   (''*'', defaultBehavior (cdn CdkWoocommerceStack)) \<in> set (rules (cdn CdkWoocommerceStack)) \<and>
   glob ''/api/orders/*'' ''/api/orders/7'' \<and> glob ''*'' ''/api/orders/7'' \<and>
   cachePolicy (resolve (cdn CdkWoocommerceStack) ''/api/orders/7'') = Some CACHING_DISABLED \<and>
   cachePolicy (defaultBehavior (cdn CdkWoocommerceStack)) = None \<and>
   effectiveCachePolicy CACHING_OPTIMIZED (resolve (cdn CdkWoocommerceStack) ''/api/orders/7'') \<noteq>
     effectiveCachePolicy CACHING_OPTIMIZED (defaultBehavior (cdn CdkWoocommerceStack)) \<and>
   (''/api/products/*'', resolve (cdn CdkWoocommerceStack) ''/api/products/42'')
     \<in> set (rules (cdn CdkWoocommerceStack)) \<and>
   glob ''/api/products/*'' ''/api/products/42'' \<and> glob ''*'' ''/api/products/42'' \<and>
   effectiveCachePolicy CACHING_DISABLED (resolve (cdn CdkWoocommerceStack) ''/api/products/42'') \<noteq>
     effectiveCachePolicy CACHING_DISABLED (defaultBehavior (cdn CdkWoocommerceStack)) \<and>
   productsResource \<in> set (apiResources CdkWoocommerceStack) \<and>
   (''POST'', ''ProductsFunction'') \<in> set (methods productsResource) \<and>
   writeCapable productsResource \<and>
   endpointPath productsResource ''42'' = ''/api/products/42'' \<and>
   cachePolicy (resolve (cdn CdkWoocommerceStack) ''/api/products/42'') = Some CACHING_OPTIMIZED \<and>
   cachePolicy (resolve (cdn CdkWoocommerceStack) ''/api/products/42'') \<noteq> Some CACHING_DISABLED \<and>
   ordersResource \<in> set (apiResources CdkWoocommerceStack) \<and>
   writeCapable ordersResource \<and>
   ''/api/'' @ pathPart ordersResource = ''/api/orders'' \<and>
   resolve (cdn CdkWoocommerceStack) ''/api/orders'' = defaultBehavior (cdn CdkWoocommerceStack) \<and>
   cachePolicy (resolve (cdn CdkWoocommerceStack) ''/api/orders'') \<noteq> Some CACHING_DISABLED"
proof -
  have c: "cdn CdkWoocommerceStack = gatewayDistribution"
    and m: "productsResource \<in> set (apiResources CdkWoocommerceStack)"
      "ordersResource \<in> set (apiResources CdkWoocommerceStack)"
    by (simp_all add: CdkWoocommerceStack_def)
  have o7: "resolve gatewayDistribution ''/api/orders/7'' =
      \<lparr>origin = apiOrigin, allowedMethods = Some ALLOW_ALL,
       viewerProtocolPolicy = HTTPS_ONLY, cachePolicy = Some CACHING_DISABLED\<rparr>"
    by (simp add: resolve_def matchingBehaviors_def gatewayDistribution_def)
  have p42: "resolve gatewayDistribution ''/api/products/42'' =
      \<lparr>origin = apiOrigin, allowedMethods = Some ALLOW_ALL,
       viewerProtocolPolicy = HTTPS_ONLY, cachePolicy = Some CACHING_OPTIMIZED\<rparr>"
    by (simp add: resolve_def matchingBehaviors_def gatewayDistribution_def)
  have own: "resolve gatewayDistribution ''/api/orders'' = defaultBehavior gatewayDistribution"
    by (simp add: resolve_def matchingBehaviors_def gatewayDistribution_def)
  have dflt: "defaultBehavior gatewayDistribution = staticBehavior"
    by (simp add: gatewayDistribution_def)
  have mem: "(''/api/orders/*'', resolve gatewayDistribution ''/api/orders/7'')
       \<in> set (rules gatewayDistribution)"
    "(''/api/products/*'', resolve gatewayDistribution ''/api/products/42'')
       \<in> set (rules gatewayDistribution)"
    "(''*'', defaultBehavior gatewayDistribution) \<in> set (rules gatewayDistribution)"
    unfolding o7 p42 by (simp_all add: rules_def gatewayDistribution_def)
  have g: "glob ''/api/orders/*'' ''/api/orders/7''" "glob ''*'' ''/api/orders/7''"
    "glob ''/api/products/*'' ''/api/products/42''" "glob ''*'' ''/api/products/42''"
    by simp_all
  have r: "(''POST'', ''ProductsFunction'') \<in> set (methods productsResource)"
    "endpointPath productsResource ''42'' = ''/api/products/42''"
    "''/api/'' @ pathPart ordersResource = ''/api/orders''"
    by (simp_all add: productsResource_def ordersResource_def endpointPath_def)
  have pol: "cachePolicy (resolve gatewayDistribution ''/api/orders/7'') = Some CACHING_DISABLED"
    "cachePolicy (resolve gatewayDistribution ''/api/products/42'') = Some CACHING_OPTIMIZED"
    "cachePolicy (defaultBehavior gatewayDistribution) = None"
    "cachePolicy (resolve gatewayDistribution ''/api/orders'') = None"
    unfolding o7 p42 own dflt by (simp_all add: staticBehavior_def)
  have eff: "effectiveCachePolicy CACHING_OPTIMIZED (resolve gatewayDistribution ''/api/orders/7'') \<noteq>
     effectiveCachePolicy CACHING_OPTIMIZED (defaultBehavior gatewayDistribution)"
    "effectiveCachePolicy CACHING_DISABLED (resolve gatewayDistribution ''/api/products/42'') \<noteq>
     effectiveCachePolicy CACHING_DISABLED (defaultBehavior gatewayDistribution)"
    by (simp_all add: effectiveCachePolicy_def pol)
  show ?thesis
    unfolding c using m mem g r pol eff own resources_write_capable by simp
qed

text \<open>
  C2, amended. A path resolves to the first rule of the rule set that matches it. In every
  stack no two path-pattern rules match the same concrete path; the default rule matches
  every path and declares no cache policy, so that the policy in force there is the
  library's default; two different rules that match the same path are a pattern rule and
  the default rule. Every API resource of a stack is write-capable; the paths under
  \<open>/api/orders/\<close> and \<open>/api/cart/\<close> resolve to a rule whose cache policy is Disabled, as
  does every path under \<open>/api/\<close> in the container topology; the paths under
  \<open>/api/products/\<close> resolve to a rule whose cache policy is Optimized; and the path
  \<open>/api/n\<close> of a resource named \<open>n\<close> itself resolves to the default rule.
\<close>

theorem cache_policy_by_endpoint:
  "(\<forall>S \<in> set topologies.
      \<forall>x \<in> set (additionalBehaviors (cdn S)).
      \<forall>y \<in> set (additionalBehaviors (cdn S)).
        glob (fst x) path \<and> glob (fst y) path \<longrightarrow> x = y) \<and>
   (\<forall>S \<in> set topologies. cachePolicy (defaultBehavior (cdn S)) = None) \<and>
   (\<forall>S \<in> set topologies. \<forall>r \<in> set (apiResources S).
      writeCapable r \<and>
      cachePolicy (resolve (cdn S) (endpointPath r rest)) =
        (if r = productsResource then Some CACHING_OPTIMIZED else Some CACHING_DISABLED)) \<and>
   cachePolicy (resolve (cdn CdkWoocommerceCicdStack) (''/api/'' @ rest)) = Some CACHING_DISABLED \<and>
   (\<forall>S \<in> set topologies.
      (''*'', defaultBehavior (cdn S)) \<in> set (rules (cdn S)) \<and> glob ''*'' path \<and>
      effectiveCachePolicy dflt (defaultBehavior (cdn S)) = dflt) \<and>
   resolve d path = snd (hd (filter (\<lambda>(pat, b). glob pat path) (rules d))) \<and>
   (\<forall>S \<in> set topologies. \<forall>r \<in> set (apiResources S).
      resolve (cdn S) (''/api/'' @ pathPart r) = defaultBehavior (cdn S)) \<and>
   (\<forall>S \<in> set topologies.
      \<forall>x \<in> set (rules (cdn S)).
      \<forall>y \<in> set (rules (cdn S)).
        glob (fst x) path \<and> glob (fst y) path \<and> x \<noteq> y \<longrightarrow>
        x = (''*'', defaultBehavior (cdn S)) \<or> y = (''*'', defaultBehavior (cdn S)))"
proof -
  have A: "\<forall>S \<in> set topologies.
      \<forall>x \<in> set (additionalBehaviors (cdn S)).
      \<forall>y \<in> set (additionalBehaviors (cdn S)).
        glob (fst x) path \<and> glob (fst y) path \<longrightarrow> x = y"
  proof (intro ballI impI)
    fix S x y
    assume S: "S \<in> set topologies"
      and x: "x \<in> set (additionalBehaviors (cdn S))"
      and y: "y \<in> set (additionalBehaviors (cdn S))"
      and g: "glob (fst x) path \<and> glob (fst y) path"
    obtain p1 b1 where x': "x = (p1, b1)" by (cases x)
    obtain p2 b2 where y': "y = (p2, b2)" by (cases y)
    from g have g1: "glob p1 path" and g2: "glob p2 path"
      by (simp_all add: x' y')
    from topologies_cdn[OF S] show "x = y"
    proof
      assume c: "cdn S = gatewayDistribution"
      from x y have "(p1, b1) \<in> set (additionalBehaviors gatewayDistribution)"
        and "(p2, b2) \<in> set (additionalBehaviors gatewayDistribution)"
        unfolding c x' y' .
      from gateway_patterns_disjoint[OF this g1 g2] show ?thesis
        by (simp add: x' y')
    next
      assume c: "cdn S = containerDistribution"
      from x y have "(p1, b1) \<in> set (additionalBehaviors containerDistribution)"
        and "(p2, b2) \<in> set (additionalBehaviors containerDistribution)"
        unfolding c x' y' .
      from container_patterns_disjoint[OF this] show ?thesis
        by (simp add: x' y')
    qed
  qed
  have B: "\<forall>S \<in> set topologies. cachePolicy (defaultBehavior (cdn S)) = None"
    using default_policy by blast
  have C: "\<forall>S \<in> set topologies. \<forall>r \<in> set (apiResources S).
      writeCapable r \<and>
      cachePolicy (resolve (cdn S) (endpointPath r rest)) =
        (if r = productsResource then Some CACHING_OPTIMIZED else Some CACHING_DISABLED)"
  proof (intro ballI)
    fix S r assume "S \<in> set topologies" and "r \<in> set (apiResources S)"
    from topologies_resources[OF this] have c: "cdn S = gatewayDistribution"
      and r: "r = productsResource \<or> r = ordersResource \<or> r = cartResource"
      by blast+
    from r show "writeCapable r \<and>
        cachePolicy (resolve (cdn S) (endpointPath r rest)) =
          (if r = productsResource then Some CACHING_OPTIMIZED else Some CACHING_DISABLED)"
    proof (elim disjE)
      assume "r = productsResource"
      then show ?thesis
        unfolding c using resolve_products[of rest] resources_write_capable(1) by simp
    next
      assume "r = ordersResource"
      then show ?thesis
        unfolding c using resolve_orders[of rest] resources_write_capable(2) resources_differ(1)
        by simp
    next
      assume "r = cartResource"
      then show ?thesis
        unfolding c using resolve_cart[of rest] resources_write_capable(3) resources_differ(2)
        by simp
    qed
  qed
  have "cdn CdkWoocommerceCicdStack = containerDistribution"
    by (simp add: CdkWoocommerceCicdStack_def)
  then have D: "cachePolicy (resolve (cdn CdkWoocommerceCicdStack) (''/api/'' @ rest)) =
      Some CACHING_DISABLED"
    using resolve_container_api[of rest] by (simp del: append.simps)
  have E: "\<forall>S \<in> set topologies.
      (''*'', defaultBehavior (cdn S)) \<in> set (rules (cdn S)) \<and> glob ''*'' path \<and>
      effectiveCachePolicy dflt (defaultBehavior (cdn S)) = dflt"
    using default_policy by (simp add: rules_def glob_star effectiveCachePolicy_def)
  have F: "resolve d path = snd (hd (filter (\<lambda>(pat, b). glob pat path) (rules d)))"
    by (rule resolve_first_match)
  have G: "\<forall>S \<in> set topologies. \<forall>r \<in> set (apiResources S).
      resolve (cdn S) (''/api/'' @ pathPart r) = defaultBehavior (cdn S)"
  proof (intro ballI)
    fix S r assume "S \<in> set topologies" and "r \<in> set (apiResources S)"
    from topologies_resources[OF this] resolve_own_path
    show "resolve (cdn S) (''/api/'' @ pathPart r) = defaultBehavior (cdn S)"
      by auto
  qed
  have H: "\<forall>S \<in> set topologies.
      \<forall>x \<in> set (rules (cdn S)).
      \<forall>y \<in> set (rules (cdn S)).
        glob (fst x) path \<and> glob (fst y) path \<and> x \<noteq> y \<longrightarrow>
        x = (''*'', defaultBehavior (cdn S)) \<or> y = (''*'', defaultBehavior (cdn S))"
  proof (intro ballI impI)
    fix S x y
    assume S: "S \<in> set topologies"
      and x: "x \<in> set (rules (cdn S))" and y: "y \<in> set (rules (cdn S))"
      and g: "glob (fst x) path \<and> glob (fst y) path \<and> x \<noteq> y"
    show "x = (''*'', defaultBehavior (cdn S)) \<or> y = (''*'', defaultBehavior (cdn S))"
    proof (rule ccontr)
      assume "\<not> ?thesis"
      with x y have "x \<in> set (additionalBehaviors (cdn S))"
        and "y \<in> set (additionalBehaviors (cdn S))"
        by (simp_all add: rules_def)
      with A S g show False by blast
    qed
  qed
  show ?thesis
    by (intro conjI) (rule A B C D E F G H)+
qed

theorem cache_policy_by_endpoint_witness:
  "CdkWoocommerceStack1 \<in> set topologies \<and>
   ordersResource \<in> set (apiResources CdkWoocommerceStack1) \<and>
   writeCapable ordersResource \<and>
   cachePolicy (resolve (cdn CdkWoocommerceStack1) (endpointPath ordersResource ''7'')) =
     Some CACHING_DISABLED \<and>
   productsResource \<in> set (apiResources CdkWoocommerceStack1) \<and>
   cachePolicy (resolve (cdn CdkWoocommerceStack1) (endpointPath productsResource ''7'')) =
     Some CACHING_OPTIMIZED \<and>
   resolve (cdn CdkWoocommerceStack1) (''/api/'' @ pathPart ordersResource) =
     defaultBehavior (cdn CdkWoocommerceStack1)"
proof -
  have m: "CdkWoocommerceStack1 \<in> set topologies"
    by (simp add: topologies_def)
  have o: "ordersResource \<in> set (apiResources CdkWoocommerceStack1)"
    and p: "productsResource \<in> set (apiResources CdkWoocommerceStack1)"
    by (simp_all add: CdkWoocommerceStack1_def)
  note t = cache_policy_by_endpoint[of "[]" "''7''", THEN conjunct2, THEN conjunct2,
      THEN conjunct1, rule_format, OF m]
  from t[OF o] resources_differ(1)
  have "writeCapable ordersResource \<and>
      cachePolicy (resolve (cdn CdkWoocommerceStack1) (endpointPath ordersResource ''7'')) =
        Some CACHING_DISABLED"
    by simp
  moreover from t[OF p] have
    "cachePolicy (resolve (cdn CdkWoocommerceStack1) (endpointPath productsResource ''7'')) =
        Some CACHING_OPTIMIZED"
    by simp
  moreover note cache_policy_by_endpoint[of "[]" "''7''" CACHING_OPTIMIZED "cdn CdkWoocommerceStack1",
      THEN conjunct2, THEN conjunct2, THEN conjunct2, THEN conjunct2, THEN conjunct2,
      THEN conjunct2, THEN conjunct1, rule_format, OF m o]
  ultimately show ?thesis using m o p by simp
qed

text \<open>
  C6. In the container topology the distribution has exactly one path-pattern rule,
  \<open>/api/*\<close>; its origin is the load balancer of the service and its cache policy is
  Disabled. Every path under \<open>/api/\<close> resolves to it, and the stack declares no
  per-resource API routes.
\<close>

theorem container_single_dynamic_rule:
  "additionalBehaviors (cdn CdkWoocommerceCicdStack) =
     [(''/api/*'',
       \<lparr>origin = LoadBalancerV2Origin ''WooCommerceService'', allowedMethods = Some ALLOW_ALL,
        viewerProtocolPolicy = HTTPS_ONLY, cachePolicy = Some CACHING_DISABLED\<rparr>)] \<and>
   length (additionalBehaviors (cdn CdkWoocommerceCicdStack)) = 1 \<and>
   apiResources CdkWoocommerceCicdStack = [] \<and>
   (\<forall>rest. origin (resolve (cdn CdkWoocommerceCicdStack) (''/api/'' @ rest)) =
             LoadBalancerV2Origin ''WooCommerceService'' \<and>
           cachePolicy (resolve (cdn CdkWoocommerceCicdStack) (''/api/'' @ rest)) =
             Some CACHING_DISABLED)"
proof -
  have c: "cdn CdkWoocommerceCicdStack = containerDistribution"
    and a: "apiResources CdkWoocommerceCicdStack = []"
    by (simp_all add: CdkWoocommerceCicdStack_def)
  have b: "additionalBehaviors containerDistribution =
     [(''/api/*'',
       \<lparr>origin = LoadBalancerV2Origin ''WooCommerceService'', allowedMethods = Some ALLOW_ALL,
        viewerProtocolPolicy = HTTPS_ONLY, cachePolicy = Some CACHING_DISABLED\<rparr>)]"
    by (simp add: containerDistribution_def)
  have r: "origin (resolve containerDistribution (''/api/'' @ rest)) =
             LoadBalancerV2Origin ''WooCommerceService'' \<and>
           cachePolicy (resolve containerDistribution (''/api/'' @ rest)) =
             Some CACHING_DISABLED" for rest
    unfolding resolve_container_api by simp
  show ?thesis
    unfolding c b using a r by simp
qed

text \<open>
  C8. In each of the three stacks the default rule has the storage bucket of the stack as
  its origin and redirects to HTTPS, and the root path resolves to it; every path-pattern
  rule is under \<open>/api/\<close> and its protocol policy is HTTPS-only.
\<close>

theorem protocol_policies:
  "\<forall>S \<in> set topologies.
     origin (defaultBehavior (cdn S)) = S3Origin (bucket S) \<and>
     viewerProtocolPolicy (defaultBehavior (cdn S)) = REDIRECT_TO_HTTPS \<and>
     resolve (cdn S) ''/'' = defaultBehavior (cdn S) \<and>
     (\<forall>x \<in> set (additionalBehaviors (cdn S)).
        prefix ''/api/'' (fst x) \<and> viewerProtocolPolicy (snd x) = HTTPS_ONLY)"
proof
  fix S assume "S \<in> set topologies"
  then consider "S = CdkWoocommerceStack" | "S = CdkWoocommerceStack1"
    | "S = CdkWoocommerceCicdStack"
    unfolding topologies_def by auto
  then show "origin (defaultBehavior (cdn S)) = S3Origin (bucket S) \<and>
     viewerProtocolPolicy (defaultBehavior (cdn S)) = REDIRECT_TO_HTTPS \<and>
     resolve (cdn S) ''/'' = defaultBehavior (cdn S) \<and>
     (\<forall>x \<in> set (additionalBehaviors (cdn S)).
        prefix ''/api/'' (fst x) \<and> viewerProtocolPolicy (snd x) = HTTPS_ONLY)"
  proof cases
    case 1
    then show ?thesis
      by (simp add: CdkWoocommerceStack_def gatewayDistribution_def staticBehavior_def
          resolve_def matchingBehaviors_def)
  next
    case 2
    then show ?thesis
      by (simp add: CdkWoocommerceStack1_def gatewayDistribution_def staticBehavior_def
          resolve_def matchingBehaviors_def)
  next
    case 3
    then show ?thesis
      by (simp add: CdkWoocommerceCicdStack_def containerDistribution_def staticBehavior_def
          resolve_def matchingBehaviors_def)
  qed
qed

theorem protocol_policies_witness:
  "CdkWoocommerceStack \<in> set topologies \<and>
   origin (resolve (cdn CdkWoocommerceStack) ''/'') = S3Origin ''WooCommerceAssets'' \<and>
   viewerProtocolPolicy (resolve (cdn CdkWoocommerceStack) ''/'') = REDIRECT_TO_HTTPS \<and>
   map (viewerProtocolPolicy \<circ> snd) (additionalBehaviors (cdn CdkWoocommerceStack)) =
     [HTTPS_ONLY, HTTPS_ONLY, HTTPS_ONLY]"
proof -
  have m: "CdkWoocommerceStack \<in> set topologies"
    by (simp add: topologies_def)
  have b: "bucket CdkWoocommerceStack = ''WooCommerceAssets''"
    by (simp add: CdkWoocommerceStack_def)
  note t = protocol_policies[rule_format, OF m]
  have "map (viewerProtocolPolicy \<circ> snd) (additionalBehaviors (cdn CdkWoocommerceStack)) =
     [HTTPS_ONLY, HTTPS_ONLY, HTTPS_ONLY]"
    by (simp add: CdkWoocommerceStack_def gatewayDistribution_def)
  with t m b show ?thesis by simp
qed

section \<open>Properties of pipeline executions\<close>

lemma run_Failed: "run p Failed oks = replicate (Suc (length oks)) Failed"
  by (induction oks) simp_all

lemma run_Succeeded: "run p Succeeded oks = replicate (Suc (length oks)) Succeeded"
  by (induction oks) simp_all

lemma stagesVisited_Cons: "stagesVisited (s # tr) = stageOf s @ stagesVisited tr"
  by (simp add: stagesVisited_def)

lemma stagesVisited_terminal:
  "stagesVisited (replicate n Failed) = []" "stagesVisited (replicate n Succeeded) = []"
  by (induction n) (simp_all add: stagesVisited_def)

lemma mkPipeline_stages:
  "map stageName (stages (mkPipeline d)) = [''Source'', ''Build'', ''Deploy'']"
  "trigger (mkPipeline d) = InStage ''Source''"
  by (simp_all add: mkPipeline_def trigger_def)

lemma mkPipeline_advance:
  "advance (mkPipeline d) (InStage ''Source'') True = InStage ''Build''"
  "advance (mkPipeline d) (InStage ''Build'') True = InStage ''Deploy''"
  "advance (mkPipeline d) (InStage ''Deploy'') True = Succeeded"
  "advance (mkPipeline d) (InStage s) False = Failed"
  by (simp_all add: mkPipeline_def)

lemma stagesVisited_Nil: "stagesVisited [] = []"
  by (simp add: stagesVisited_def)

lemmas visited_simps =
  stagesVisited_Cons stagesVisited_Nil mkPipeline_advance run_Failed run_Succeeded
  stagesVisited_terminal

lemma mkPipeline_visited:
  "stagesVisited (run (mkPipeline d) (InStage ''Source'') oks) =
     take (Suc (length (takeWhile id oks))) [''Source'', ''Build'', ''Deploy'']"
proof (cases oks)
  case Nil
  then show ?thesis by (simp add: visited_simps)
next
  case c1: (Cons o1 os1)
  show ?thesis
  proof (cases o1)
    case False
    with c1 show ?thesis
      by (simp add: visited_simps del: replicate.simps advance.simps)
  next
    case t1: True
    show ?thesis
    proof (cases os1)
      case Nil
      with c1 t1 show ?thesis
        by (simp add: visited_simps del: replicate.simps advance.simps)
    next
      case c2: (Cons o2 os2)
      show ?thesis
      proof (cases o2)
        case False
        with c1 t1 c2 show ?thesis
          by (simp add: visited_simps del: replicate.simps advance.simps)
      next
        case t2: True
        show ?thesis
        proof (cases os2)
          case Nil
          with c1 t1 c2 t2 show ?thesis
            by (simp add: visited_simps del: replicate.simps advance.simps)
        next
          case c3: (Cons o3 os3)
          show ?thesis
          proof (cases o3)
            case False
            with c1 t1 c2 t2 c3 show ?thesis
              by (simp add: visited_simps del: replicate.simps advance.simps)
          next
            case True
            with c1 t1 c2 t2 c3 show ?thesis
              by (simp add: visited_simps del: replicate.simps advance.simps)
          qed
        qed
      qed
    qed
  qed
qed

lemma declared_pipelines:
  assumes "P \<in> set (pipelines CdkWoocommerceStack1 @ pipelines CdkWoocommerceCicdStack)"
  shows "\<exists>d. P = mkPipeline d"
  using assms by (auto simp: CdkWoocommerceStack1_def CdkWoocommerceCicdStack_def)

text \<open>
  C3. For the pipeline of either stack that declares one: its stages are Source, Build and
  Deploy, in this order, and an execution starts in Source. Whatever the outcomes of the
  steps, the stages an execution goes through are an initial part of Source, Build, Deploy,
  one stage more per success, so none is skipped or taken out of order. A failure in any
  stage moves the execution to \<open>Failed\<close>, and from \<open>Failed\<close> every later state is
  \<open>Failed\<close>.
\<close>

theorem pipeline_stage_order:
  assumes "P \<in> set (pipelines CdkWoocommerceStack1 @ pipelines CdkWoocommerceCicdStack)"
  shows "map stageName (stages P) = [''Source'', ''Build'', ''Deploy''] \<and>
         trigger P = InStage ''Source'' \<and>
         stagesVisited (run P (trigger P) oks) =
           take (Suc (length (takeWhile id oks))) [''Source'', ''Build'', ''Deploy''] \<and>
         prefix (stagesVisited (run P (trigger P) oks)) [''Source'', ''Build'', ''Deploy''] \<and>
         advance P (InStage s) False = Failed \<and>
         run P Failed oks = replicate (Suc (length oks)) Failed"
proof -
  from declared_pipelines[OF assms] obtain d where P: "P = mkPipeline d" ..
  have v: "stagesVisited (run P (trigger P) oks) =
           take (Suc (length (takeWhile id oks))) [''Source'', ''Build'', ''Deploy'']"
    unfolding P mkPipeline_stages(2) by (rule mkPipeline_visited)
  have "prefix (stagesVisited (run P (trigger P) oks)) [''Source'', ''Build'', ''Deploy'']"
    unfolding v by (rule take_is_prefix)
  with v show ?thesis
    unfolding P using mkPipeline_stages[of d] mkPipeline_advance(4)[of d s] run_Failed
    by simp
qed

theorem pipeline_stage_order_witness:
  "mkPipeline (EcsDeployAction ''Deploy'' ''WooCommerceService'')
     \<in> set (pipelines CdkWoocommerceStack1 @ pipelines CdkWoocommerceCicdStack) \<and>
   stagesVisited (run (mkPipeline (EcsDeployAction ''Deploy'' ''WooCommerceService''))
       (trigger (mkPipeline (EcsDeployAction ''Deploy'' ''WooCommerceService'')))
       [True, False, True]) = [''Source'', ''Build''] \<and>
   run (mkPipeline (EcsDeployAction ''Deploy'' ''WooCommerceService'')) Failed [True, True] =
     [Failed, Failed, Failed]"
proof -
  have m: "mkPipeline (EcsDeployAction ''Deploy'' ''WooCommerceService'')
     \<in> set (pipelines CdkWoocommerceStack1 @ pipelines CdkWoocommerceCicdStack)"
    by (simp add: CdkWoocommerceCicdStack_def)
  from pipeline_stage_order[OF m, of "[True, False, True]"]
    pipeline_stage_order[OF m, of "[True, True]"] m
  show ?thesis by simp
qed

section \<open>Properties of the Build stage\<close>

subsection \<open>Running lists of commands\<close>


lemma runCommand_None: "runCommand ok env files c = None \<longleftrightarrow> commandOutput ok env c = None"
  by (simp add: runCommand_def split: option.splits)

lemma runCommands_all_ok:
  assumes "\<forall>c \<in> set cs. commandOutput ok env c \<noteq> None"
  shows "\<exists>files'. runCommands ok env (ex, files) cs = ((ex @ cs, files'), True)"
  using assms
proof (induction cs arbitrary: ex files)
  case Nil
  then show ?case by simp
next
  case (Cons c cs)
  then obtain f where f: "runCommand ok env files c = Some f"
    using runCommand_None[of ok env files c] by auto
  from Cons.IH[of "ex @ [c]" f] Cons.prems
  show ?case using f by simp
qed

lemma runCommands_first_failure:
  assumes "\<forall>x \<in> set pre. commandOutput ok env x \<noteq> None"
    and "commandOutput ok env c = None"
  shows "\<exists>files'. runCommands ok env (ex, files) (pre @ c # post) = ((ex @ pre @ [c], files'), False)"
  using assms
proof (induction pre arbitrary: ex files)
  case Nil
  then have "runCommand ok env files c = None" by (simp add: runCommand_None)
  then show ?case by simp
next
  case (Cons x pre)
  then obtain f where f: "runCommand ok env files x = Some f"
    using runCommand_None[of ok env files x] by auto
  from Cons.IH[of "ex @ [x]" f] Cons.prems
  show ?case using f by simp
qed

lemma runCommands_append:
  "runCommands ok env st (xs @ ys) =
     (case runCommands ok env st xs of
        (st', True) \<Rightarrow> runCommands ok env st' ys
      | (st', False) \<Rightarrow> (st', False))"
proof (induction xs arbitrary: st)
  case Nil
  then show ?case by simp
next
  case (Cons x xs)
  obtain ex files where st: "st = (ex, files)" by (cases st)
  show ?case unfolding st using Cons.IH by (simp split: option.splits)
qed

lemma runPhases_commands:
  "runCommands ok env st (concat (map snd ps)) =
     (fst (runPhases ok env st ps), snd (runPhases ok env st ps) = None)"
proof (induction ps arbitrary: st)
  case Nil
  then show ?case by simp
next
  case (Cons p ps)
  obtain name cmds where p: "p = (name, cmds)" by (cases p)
  obtain st' b where r: "runCommands ok env st cmds = (st', b)" by (cases "runCommands ok env st cmds")
  show ?case
    using Cons.IH[of st'] r by (cases b) (simp_all add: p runCommands_append)
qed

lemma buildStage_first_failure:
  assumes "commandsOf spec = pre @ c # post"
    and "\<forall>x \<in> set pre. commandOutput ok env x \<noteq> None"
    and "commandOutput ok env c = None"
  shows "\<exists>phase. buildStage ok env spec = BuildFailed phase (pre @ [c])"
proof -
  obtain files' where
    "runCommands ok env ([], Map.empty) (commandsOf spec) = ((pre @ [c], files'), False)"
    using runCommands_first_failure[OF assms(2,3), of "[]" Map.empty post] assms(1) by auto
  then have "fst (runPhases ok env ([], Map.empty) (phases spec)) = (pre @ [c], files')"
    and "snd (runPhases ok env ([], Map.empty) (phases spec)) \<noteq> None"
    by (simp_all add: commandsOf_def runPhases_commands)
  then show ?thesis
    by (cases "runPhases ok env ([], Map.empty) (phases spec)") (auto simp: buildStage_def)
qed

lemma buildStage_all_ok:
  assumes "\<forall>x \<in> set (commandsOf spec). commandOutput ok env x \<noteq> None"
  shows "\<exists>files'. runPhases ok env ([], Map.empty) (phases spec) = ((commandsOf spec, files'), None)"
proof -
  obtain files' where
    "runCommands ok env ([], Map.empty) (commandsOf spec) = ((commandsOf spec, files'), True)"
    using runCommands_all_ok[OF assms, of "[]" Map.empty] by auto
  then show ?thesis
    by (cases "runPhases ok env ([], Map.empty) (phases spec)") (auto simp: commandsOf_def runPhases_commands)
qed


lemma runCommands_files:
  assumes "runCommands ok env (ex, files) cs = ((ex', files'), True)"
  shows "files' = fold (writes ok env) cs files"
  using assms
proof (induction cs arbitrary: ex files)
  case Nil
  then show ?case by simp
next
  case (Cons c cs)
  then obtain f where f: "runCommand ok env files c = Some f"
    by (cases "runCommand ok env files c") auto
  then have "f = writes ok env c files"
    by (auto simp: runCommand_def writes_def split: option.splits)
  with Cons f show ?case by simp
qed

lemma runCommands_succeeded:
  assumes "runCommands ok env (ex, files) cs = (st, True)"
  shows "\<forall>c \<in> set cs. commandOutput ok env c \<noteq> None"
  using assms
proof (induction cs arbitrary: ex files)
  case Nil
  then show ?case by simp
next
  case (Cons c cs)
  then obtain f where f: "runCommand ok env files c = Some f"
    by (cases "runCommand ok env files c") auto
  then have "commandOutput ok env c \<noteq> None"
    using runCommand_None[of ok env files c] by simp
  moreover from Cons f have "\<forall>c \<in> set cs. commandOutput ok env c \<noteq> None"
    by simp
  ultimately show ?case by simp
qed

lemma buildStage_succeeded:
  assumes "buildStage ok env spec = BuildSucceeded ex a"
  shows "ex = commandsOf spec \<and>
         (\<forall>c \<in> set (commandsOf spec). commandOutput ok env c \<noteq> None) \<and>
         collectArtifacts (fold (writes ok env) (commandsOf spec) Map.empty) (artifacts spec) = Some a"
proof -
  obtain ex' files r where rp: "runPhases ok env ([], Map.empty) (phases spec) = ((ex', files), r)"
    by (cases "runPhases ok env ([], Map.empty) (phases spec)") auto
  with assms have r: "r = None" and e: "ex' = ex"
    and a: "collectArtifacts files (artifacts spec) = Some a"
    by (auto simp: buildStage_def split: option.splits)
  from rp r have rc: "runCommands ok env ([], Map.empty) (commandsOf spec) = ((ex', files), True)"
    by (simp add: commandsOf_def runPhases_commands)
  from runCommands_succeeded[OF rc]
  have all: "\<forall>c \<in> set (commandsOf spec). commandOutput ok env c \<noteq> None" .
  from runCommands_all_ok[OF all, of "[]" Map.empty] rc have "ex' = commandsOf spec"
    by auto
  with e a all runCommands_files[OF rc] show ?thesis by simp
qed

subsection \<open>The commands of the two build specifications\<close>

lemmas command_defs =
  installCommands_def preBuildCommands_def buildCommands_def pushCommands_def
  imageDefinitionsCommands_def writeImageDefinitions_def

lemma programs_append: "programs (xs @ ys) = programs xs @ programs ys"
  by (simp add: programs_def)

lemma programs_install: "programs installCommands = [''npm install'']"
  by (simp add: programs_def builtin_def argv_def installCommands_def)

lemma programs_preBuild:
  "programs preBuildCommands =
     [''aws ecr get-login-password --region $AWS_DEFAULT_REGION | docker login --username AWS --password-stdin $REPOSITORY_URI'']"
  by (simp add: programs_def builtin_def argv_def preBuildCommands_def)

lemma programs_build:
  "programs buildCommands =
     [''docker build -t $REPOSITORY_URI:latest .'',
      ''docker tag $REPOSITORY_URI:latest $REPOSITORY_URI:$CODEBUILD_RESOLVED_SOURCE_VERSION'']"
  by (simp add: programs_def builtin_def argv_def buildCommands_def)

lemma programs_push:
  "programs pushCommands =
     [''docker push $REPOSITORY_URI:latest'',
      ''docker push $REPOSITORY_URI:$CODEBUILD_RESOLVED_SOURCE_VERSION'']"
  by (simp add: programs_def builtin_def argv_def pushCommands_def)

lemma programs_imageDefinitions: "programs imageDefinitionsCommands = []"
  by (simp add: programs_def builtin_def argv_def imageDefinitionsCommands_def writeImageDefinitions_def)

lemma buildEnv_values:
  "lookupVar (buildEnv val (buildProject spec) region revision) ''REPOSITORY_URI'' =
     val (repositoryUri ''WooCommerceRepo'')"
  "lookupVar (buildEnv val (buildProject spec) region revision) ''AWS_DEFAULT_REGION'' = region"
  "lookupVar (buildEnv val (buildProject spec) region revision)
     ''CODEBUILD_RESOLVED_SOURCE_VERSION'' = revision"
  by (simp_all add: lookupVar_def buildEnv_def buildProject_def)

lemma argv_programs:
  "map (argv env)
     (programs installCommands @ programs preBuildCommands @ programs buildCommands @
      programs pushCommands) =
     [[''npm'', ''install''],
      [''aws'', ''ecr'', ''get-login-password'', ''--region'', lookupVar env ''AWS_DEFAULT_REGION'',
       ''|'', ''docker'', ''login'', ''--username'', ''AWS'', ''--password-stdin'',
       lookupVar env ''REPOSITORY_URI''],
      [''docker'', ''build'', ''-t'', lookupVar env ''REPOSITORY_URI'' @ '':latest'', ''.''],
      [''docker'', ''tag'', lookupVar env ''REPOSITORY_URI'' @ '':latest'',
       lookupVar env ''REPOSITORY_URI'' @ '':'' @
       lookupVar env ''CODEBUILD_RESOLVED_SOURCE_VERSION''],
      [''docker'', ''push'', lookupVar env ''REPOSITORY_URI'' @ '':latest''],
      [''docker'', ''push'',
       lookupVar env ''REPOSITORY_URI'' @ '':'' @
       lookupVar env ''CODEBUILD_RESOLVED_SOURCE_VERSION'']]"
  unfolding programs_install programs_preBuild programs_build programs_push
  by (simp add: argv_def nameChar_def)

lemma output_install:
  "\<forall>c \<in> set installCommands. commandOutput ok env c \<noteq> None \<or> \<not> ok c"
  by (simp add: commandOutput_def argv_def installCommands_def)

lemma output_preBuild:
  "\<forall>c \<in> set preBuildCommands. commandOutput ok env c \<noteq> None \<or> \<not> ok c"
  by (simp add: commandOutput_def argv_def preBuildCommands_def nameChar_def)

lemma output_build:
  "\<forall>c \<in> set buildCommands. commandOutput ok env c \<noteq> None \<or> \<not> ok c"
  by (simp add: commandOutput_def argv_def buildCommands_def nameChar_def)

lemma output_push:
  "\<forall>c \<in> set pushCommands. commandOutput ok env c \<noteq> None \<or> \<not> ok c"
  by (simp add: commandOutput_def argv_def pushCommands_def nameChar_def)

lemma output_imageDefinitions:
  "\<forall>c \<in> set imageDefinitionsCommands. commandOutput ok env c \<noteq> None \<or> \<not> ok c"
  by (simp add: commandOutput_def argv_def imageDefinitionsCommands_def writeImageDefinitions_def nameChar_def)

lemma printf_output:
  "commandOutput ok env writeImageDefinitions =
     Some ([CHR ''['', CHR ''{'', CHR 0x22, CHR ''n'', CHR ''a'', CHR ''m'', CHR ''e'', CHR 0x22,
            CHR '':'', CHR 0x22] @ ''WooCommerceContainer'' @ CHR 0x22 #
           ([CHR '','', CHR 0x22, CHR ''i'', CHR ''m'', CHR ''a'', CHR ''g'', CHR ''e'', CHR ''U'',
             CHR ''r'', CHR ''i'', CHR 0x22, CHR '':'', CHR 0x22] @
            (lookupVar env ''REPOSITORY_URI'' @ '':'' @
             lookupVar env ''CODEBUILD_RESOLVED_SOURCE_VERSION'') @ CHR 0x22 # (''}'' @ '']'')))"
  by (simp add: commandOutput_def imageDefinitionsCommands_def writeImageDefinitions_def argv_def nameChar_def)

lemma targets_install: "\<forall>c \<in> set installCommands. target env c = None"
  by (simp add: target_def installCommands_def)

lemma targets_preBuild: "\<forall>c \<in> set preBuildCommands. target env c = None"
  by (simp add: target_def preBuildCommands_def)

lemma targets_build: "\<forall>c \<in> set buildCommands. target env c = None"
  by (simp add: target_def buildCommands_def)

lemma targets_push: "\<forall>c \<in> set pushCommands. target env c = None"
  by (simp add: target_def pushCommands_def)

lemma targets_imageDefinitions:
  "map (target env) imageDefinitionsCommands = [None, Some ''imagedefinitions.json'']"
  by (simp add: target_def imageDefinitionsCommands_def writeImageDefinitions_def)

lemma declared_specs:
  assumes "spec \<in> set (map buildSpec
             (buildProjects CdkWoocommerceStack1 @ buildProjects CdkWoocommerceCicdStack))"
  shows "spec = functionBuildSpec \<or> spec = containerBuildSpec"
  using assms
  by (auto simp: CdkWoocommerceStack1_def CdkWoocommerceCicdStack_def buildProject_def)

lemma declared_phases:
  assumes "spec = functionBuildSpec \<or> spec = containerBuildSpec"
  shows "\<exists>extra. programs extra = [] \<and>
           phases spec =
             [(''install'', installCommands), (''pre_build'', preBuildCommands),
              (''build'', buildCommands), (''post_build'', pushCommands @ extra)]"
proof -
  have "programs [] = []"
    by (simp add: programs_def)
  with assms programs_imageDefinitions show ?thesis
    by (auto simp: functionBuildSpec_def containerBuildSpec_def)
qed

text \<open>
  C4. For the build specification of either pipeline stack: the external programs of its
  phases are, phase by phase and in order, the dependency installation (\<open>install\<close>), the
  login to the image registry (\<open>pre_build\<close>), the image build and then the tagging
  (\<open>build\<close>), and the two pushes (\<open>post_build\<close>); with the environment of the build the
  tag and the second push name the image by the resolved source revision, the build and the
  first push by \<open>latest\<close>. When a command fails after all earlier ones succeeded, the
  stage fails having run the commands up to that one and none after it, and the execution
  moves from Build to \<open>Failed\<close>. A stage that succeeds has run all the commands of all
  phases, in their order.
\<close>

theorem build_phases_in_order:
  assumes "spec \<in> set (map buildSpec
             (buildProjects CdkWoocommerceStack1 @ buildProjects CdkWoocommerceCicdStack))"
  shows "map (\<lambda>(name, cmds). (name, programs cmds)) (phases spec) =
           [(''install'', [''npm install'']),
            (''pre_build'',
             [''aws ecr get-login-password --region $AWS_DEFAULT_REGION | docker login --username AWS --password-stdin $REPOSITORY_URI'']),
            (''build'',
             [''docker build -t $REPOSITORY_URI:latest .'',
              ''docker tag $REPOSITORY_URI:latest $REPOSITORY_URI:$CODEBUILD_RESOLVED_SOURCE_VERSION'']),
            (''post_build'',
             [''docker push $REPOSITORY_URI:latest'',
              ''docker push $REPOSITORY_URI:$CODEBUILD_RESOLVED_SOURCE_VERSION''])] \<and>
         map (argv (buildEnv val (buildProject spec) region revision)) (programs (commandsOf spec)) =
           [[''npm'', ''install''],
            [''aws'', ''ecr'', ''get-login-password'', ''--region'', region, ''|'', ''docker'',
             ''login'', ''--username'', ''AWS'', ''--password-stdin'',
             val (repositoryUri ''WooCommerceRepo'')],
            [''docker'', ''build'', ''-t'', val (repositoryUri ''WooCommerceRepo'') @ '':latest'',
             ''.''],
            [''docker'', ''tag'', val (repositoryUri ''WooCommerceRepo'') @ '':latest'',
             val (repositoryUri ''WooCommerceRepo'') @ '':'' @ revision],
            [''docker'', ''push'', val (repositoryUri ''WooCommerceRepo'') @ '':latest''],
            [''docker'', ''push'', val (repositoryUri ''WooCommerceRepo'') @ '':'' @ revision]] \<and>
         (\<forall>pre c post.
            commandsOf spec = pre @ c # post \<and>
            (\<forall>x \<in> set pre. commandOutput ok env x \<noteq> None) \<and>
            commandOutput ok env c = None \<longrightarrow>
            (\<exists>phase. buildStage ok env spec = BuildFailed phase (pre @ [c])) \<and>
            advance P (InStage ''Build'') (succeeded (buildStage ok env spec)) = Failed) \<and>
         (\<forall>ex a. buildStage ok env spec = BuildSucceeded ex a \<longrightarrow> ex = commandsOf spec)"
proof -
  from declared_phases[OF declared_specs[OF assms]] obtain extra
    where extra: "programs extra = []"
      and ph: "phases spec =
             [(''install'', installCommands), (''pre_build'', preBuildCommands),
              (''build'', buildCommands), (''post_build'', pushCommands @ extra)]"
    by blast
  have A: "map (\<lambda>(name, cmds). (name, programs cmds)) (phases spec) =
           [(''install'', programs installCommands), (''pre_build'', programs preBuildCommands),
            (''build'', programs buildCommands), (''post_build'', programs pushCommands)]"
    unfolding ph by (simp add: programs_append extra)
  have progs: "programs (commandsOf spec) =
      programs installCommands @ programs preBuildCommands @ programs buildCommands @
      programs pushCommands"
    unfolding commandsOf_def ph by (simp add: programs_append extra)
  have B: "map (argv (buildEnv val (buildProject spec) region revision))
             (programs (commandsOf spec)) =
           [[''npm'', ''install''],
            [''aws'', ''ecr'', ''get-login-password'', ''--region'', region, ''|'', ''docker'',
             ''login'', ''--username'', ''AWS'', ''--password-stdin'',
             val (repositoryUri ''WooCommerceRepo'')],
            [''docker'', ''build'', ''-t'', val (repositoryUri ''WooCommerceRepo'') @ '':latest'',
             ''.''],
            [''docker'', ''tag'', val (repositoryUri ''WooCommerceRepo'') @ '':latest'',
             val (repositoryUri ''WooCommerceRepo'') @ '':'' @ revision],
            [''docker'', ''push'', val (repositoryUri ''WooCommerceRepo'') @ '':latest''],
            [''docker'', ''push'', val (repositoryUri ''WooCommerceRepo'') @ '':'' @ revision]]"
    unfolding progs argv_programs buildEnv_values by (rule refl)
  have C: "\<forall>pre c post.
            commandsOf spec = pre @ c # post \<and>
            (\<forall>x \<in> set pre. commandOutput ok env x \<noteq> None) \<and>
            commandOutput ok env c = None \<longrightarrow>
            (\<exists>phase. buildStage ok env spec = BuildFailed phase (pre @ [c])) \<and>
            advance P (InStage ''Build'') (succeeded (buildStage ok env spec)) = Failed"
  proof (intro allI impI)
    fix pre c post
    assume h: "commandsOf spec = pre @ c # post \<and>
            (\<forall>x \<in> set pre. commandOutput ok env x \<noteq> None) \<and>
            commandOutput ok env c = None"
    then obtain phase where f: "buildStage ok env spec = BuildFailed phase (pre @ [c])"
      using buildStage_first_failure[of spec pre c post ok env] by blast
    then show "(\<exists>phase. buildStage ok env spec = BuildFailed phase (pre @ [c])) \<and>
            advance P (InStage ''Build'') (succeeded (buildStage ok env spec)) = Failed"
      by simp
  qed
  have D: "\<forall>ex a. buildStage ok env spec = BuildSucceeded ex a \<longrightarrow> ex = commandsOf spec"
    using buildStage_succeeded[of ok env spec] by blast
  from A B C D show ?thesis
    unfolding programs_install programs_preBuild programs_build programs_push by blast
qed

theorem build_phases_in_order_witness:
  "containerBuildSpec \<in> set (map buildSpec
     (buildProjects CdkWoocommerceStack1 @ buildProjects CdkWoocommerceCicdStack)) \<and>
   (\<exists>phase. buildStage (\<lambda>c. c \<noteq> buildCommands ! 1) Map.empty containerBuildSpec =
      BuildFailed phase (installCommands @ preBuildCommands @ take 2 buildCommands)) \<and>
   advance (mkPipeline (EcsDeployAction ''Deploy'' ''WooCommerceService'')) (InStage ''Build'')
     (succeeded (buildStage (\<lambda>c. c \<noteq> buildCommands ! 1) Map.empty containerBuildSpec)) = Failed"
proof -
  let ?ok = "\<lambda>c. c \<noteq> buildCommands ! 1"
  let ?pre = "installCommands @ preBuildCommands @ take 1 buildCommands"
  let ?post = "drop 2 buildCommands @ pushCommands @ imageDefinitionsCommands"
  have m: "containerBuildSpec \<in> set (map buildSpec
     (buildProjects CdkWoocommerceStack1 @ buildProjects CdkWoocommerceCicdStack))"
    by (simp add: CdkWoocommerceCicdStack_def buildProject_def)
  have split: "commandsOf containerBuildSpec = ?pre @ (buildCommands ! 1) # ?post"
    by (simp add: commandsOf_def containerBuildSpec_def buildCommands_def)
  have pre: "\<forall>x \<in> set ?pre. commandOutput ?ok Map.empty x \<noteq> None"
    by (simp add: commandOutput_def argv_def command_defs nameChar_def)
  have fail: "commandOutput ?ok Map.empty (buildCommands ! 1) = None"
    by (simp add: commandOutput_def argv_def command_defs nameChar_def)
  have ran: "?pre @ [buildCommands ! 1] = installCommands @ preBuildCommands @ take 2 buildCommands"
    by (simp add: buildCommands_def)
  note t = build_phases_in_order[OF m, of _ _ _ ?ok Map.empty
      "mkPipeline (EcsDeployAction ''Deploy'' ''WooCommerceService'')",
      THEN conjunct2, THEN conjunct2, THEN conjunct1, rule_format,
      of ?pre "buildCommands ! 1" ?post]
  from t split pre fail
  have "(\<exists>phase. buildStage ?ok Map.empty containerBuildSpec =
            BuildFailed phase (?pre @ [buildCommands ! 1])) \<and>
        advance (mkPipeline (EcsDeployAction ''Deploy'' ''WooCommerceService''))
          (InStage ''Build'') (succeeded (buildStage ?ok Map.empty containerBuildSpec)) = Failed"
    by blast
  with m show ?thesis unfolding ran by blast
qed

subsection \<open>Reading the descriptor back\<close>

lemma readString_quote:
  assumes "\<forall>c \<in> set u. c \<noteq> CHR 0x22"
  shows "readString (u @ CHR 0x22 # rest) = Some (u, rest)"
proof -
  have "takeWhile (\<lambda>c. c \<noteq> CHR 0x22) (u @ CHR 0x22 # rest) = u"
    using assms by (subst takeWhile_append2) auto
  moreover have "dropWhile (\<lambda>c. c \<noteq> CHR 0x22) (u @ CHR 0x22 # rest) = CHR 0x22 # rest"
    using assms by (subst dropWhile_append2) auto
  ultimately show ?thesis by (simp add: readString_def)
qed

lemma stripPrefix_append: "stripPrefix p (p @ s) = Some s"
  by (simp add: stripPrefix_def)



lemma quote_not_plain: "\<not> (nameChar (CHR 0x22) \<or> CHR 0x22 \<in> set ''.-/:'')"
  by (simp add: nameChar_def)

lemma plainValue_no_quote: "plainValue v \<Longrightarrow> \<forall>c \<in> set v. c \<noteq> CHR 0x22"
  using quote_not_plain by (auto simp: plainValue_def list_all_iff)


lemma parseEntry_rendered:
  assumes "\<forall>c \<in> set n. c \<noteq> CHR 0x22" and "\<forall>c \<in> set u. c \<noteq> CHR 0x22"
  shows "parseEntry ([CHR ''{'', CHR 0x22, CHR ''n'', CHR ''a'', CHR ''m'', CHR ''e'', CHR 0x22, CHR '':'', CHR 0x22] @
           n @ CHR 0x22 #
           ([CHR '','', CHR 0x22, CHR ''i'', CHR ''m'', CHR ''a'', CHR ''g'', CHR ''e'', CHR ''U'', CHR ''r'', CHR ''i'', CHR 0x22, CHR '':'', CHR 0x22] @
           u @ CHR 0x22 # (''}'' @ rest)))
     = Some ((n, u), rest)"
  unfolding parseEntry_def stripPrefix_append readString_quote[OF assms(1)] option.case prod.case
    readString_quote[OF assms(2)]
  by (rule refl)


lemma parseEntries_single:
  assumes "parseEntry s = Some (e, '']'')"
  shows "parseEntries (length s) s = Some [e]"
proof -
  have "s \<noteq> []"
    using assms by (auto simp: parseEntry_def stripPrefix_def)
  then obtain k where "length s = Suc k"
    by (cases s) auto
  with assms show ?thesis by simp
qed

lemma descriptor_text:
  assumes "plainValue repo" and "plainValue revision"
  shows \<open>parseDescriptor (''[{"name":"WooCommerceContainer","imageUri":"'' @ repo @ '':'' @ revision @ ''"}]'')
     = Some [(''WooCommerceContainer'', repo @ '':'' @ revision)]\<close>
proof -
  let ?u = "repo @ '':'' @ revision"
  let ?entry = "[CHR ''{'', CHR 0x22, CHR ''n'', CHR ''a'', CHR ''m'', CHR ''e'', CHR 0x22, CHR '':'', CHR 0x22] @
           ''WooCommerceContainer'' @ CHR 0x22 #
           ([CHR '','', CHR 0x22, CHR ''i'', CHR ''m'', CHR ''a'', CHR ''g'', CHR ''e'', CHR ''U'', CHR ''r'', CHR ''i'', CHR 0x22, CHR '':'', CHR 0x22] @
           ?u @ CHR 0x22 # (''}'' @ '']''))"
  have u: "\<forall>c \<in> set ?u. c \<noteq> CHR 0x22"
    using assms[THEN plainValue_no_quote] by auto
  have n: "\<forall>c \<in> set ''WooCommerceContainer''. c \<noteq> CHR 0x22"
    by simp
  have entry: "parseEntry ?entry = Some ((''WooCommerceContainer'', ?u), '']'')"
    by (rule parseEntry_rendered[OF n u])
  have shape: \<open>''[{"name":"WooCommerceContainer","imageUri":"'' @ repo @ '':'' @ revision @ ''"}]'' = ''['' @ ?entry\<close>
    by simp
  have strip: "stripPrefix ''['' (''['' @ ?entry) = Some ?entry"
    by (rule stripPrefix_append)
  have "''['' @ ?entry \<noteq> ''[]''"
    by simp
  then have "parseDescriptor (''['' @ ?entry) = parseEntries (length ?entry) ?entry"
    unfolding parseDescriptor_def strip by simp
  then show ?thesis
    unfolding shape parseEntries_single[OF entry] .
qed

subsection \<open>The artifact of the container build\<close>

lemma fold_writes_none:
  assumes "\<forall>c \<in> set cs. target env c = None"
  shows "fold (writes ok env) cs files = files"
  using assms by (induction cs arbitrary: files) (simp_all add: writes_def)

lemma container_commands:
  "commandsOf containerBuildSpec =
     installCommands @ preBuildCommands @ buildCommands @ pushCommands @ imageDefinitionsCommands"
  by (simp add: commandsOf_def containerBuildSpec_def)

lemma container_files:
  "fold (writes ok env) (commandsOf containerBuildSpec) Map.empty =
     [''imagedefinitions.json'' \<mapsto> the (commandOutput ok env writeImageDefinitions)]"
proof -
  from targets_imageDefinitions[of env]
  have "fold (writes ok env) imageDefinitionsCommands Map.empty =
      [''imagedefinitions.json'' \<mapsto> the (commandOutput ok env writeImageDefinitions)]"
    by (simp add: imageDefinitionsCommands_def writes_def)
  then show ?thesis
    unfolding container_commands
    by (simp add: fold_writes_none targets_install targets_preBuild targets_build targets_push)
qed

lemma container_artifact:
  "collectArtifacts (fold (writes ok env) (commandsOf containerBuildSpec) Map.empty)
     (artifacts containerBuildSpec) =
   Some (OutputFiles [(''imagedefinitions.json'',
                       the (commandOutput ok env writeImageDefinitions))])"
  unfolding container_files by (simp add: containerBuildSpec_def)

lemma container_all_ok:
  assumes "\<forall>c. ok c"
  shows "\<forall>c \<in> set (commandsOf containerBuildSpec). commandOutput ok env c \<noteq> None"
  unfolding container_commands
  using assms output_install[of ok env] output_preBuild[of ok env] output_build[of ok env]
    output_push[of ok env] output_imageDefinitions[of ok env]
  by auto

lemma container_build_succeeds:
  assumes "\<forall>c \<in> set (commandsOf containerBuildSpec). commandOutput ok env c \<noteq> None"
  shows "buildStage ok env containerBuildSpec =
     BuildSucceeded (commandsOf containerBuildSpec)
       (OutputFiles [(''imagedefinitions.json'',
                      the (commandOutput ok env writeImageDefinitions))])"
proof -
  from buildStage_all_ok[OF assms] obtain files'
    where rp: "runPhases ok env ([], Map.empty) (phases containerBuildSpec) =
                 ((commandsOf containerBuildSpec, files'), None)"
    by blast
  then have "runCommands ok env ([], Map.empty) (commandsOf containerBuildSpec) =
      ((commandsOf containerBuildSpec, files'), True)"
    by (simp add: commandsOf_def runPhases_commands)
  from runCommands_files[OF this]
  have "files' = fold (writes ok env) (commandsOf containerBuildSpec) Map.empty" .
  with rp container_artifact[of ok env] show ?thesis
    by (simp add: buildStage_def)
qed

text \<open>
  C5. In the container topology, for a repository address and a revision made of plain
  characters: a Build stage whose external commands all succeed succeeds, and whenever it
  succeeds its artifact is one file, \<open>imagedefinitions.json\<close>, which reads back as one
  entry, the container name \<open>WooCommerceContainer\<close> with the image URI formed of the
  repository address, a colon and the revision; so the URI ends in the colon followed by
  the revision.
\<close>

theorem build_descriptor:
  assumes "plainValue (val (repositoryUri ''WooCommerceRepo''))" and "plainValue revision"
    and "env = buildEnv val (buildProject containerBuildSpec) region revision"
    and "uri = val (repositoryUri ''WooCommerceRepo'') @ '':'' @ revision"
  shows "buildProjects CdkWoocommerceCicdStack = [buildProject containerBuildSpec] \<and>
         artifacts containerBuildSpec = FileList [''imagedefinitions.json''] \<and>
         ((\<forall>c. ok c) \<longrightarrow> succeeded (buildStage ok env containerBuildSpec)) \<and>
         (\<forall>ex a. buildStage ok env containerBuildSpec = BuildSucceeded ex a \<longrightarrow>
            (\<exists>text. a = OutputFiles [(''imagedefinitions.json'', text)] \<and>
                    parseDescriptor text = Some [(''WooCommerceContainer'', uri)])) \<and>
         suffix ('':'' @ revision) uri"
proof -
  let ?text = "the (commandOutput ok env writeImageDefinitions)"
  have out: "commandOutput ok env writeImageDefinitions =
      Some ([CHR ''['', CHR ''{'', CHR 0x22, CHR ''n'', CHR ''a'', CHR ''m'', CHR ''e'', CHR 0x22,
            CHR '':'', CHR 0x22] @ ''WooCommerceContainer'' @ CHR 0x22 #
           ([CHR '','', CHR 0x22, CHR ''i'', CHR ''m'', CHR ''a'', CHR ''g'', CHR ''e'', CHR ''U'',
             CHR ''r'', CHR ''i'', CHR 0x22, CHR '':'', CHR 0x22] @
            uri @ CHR 0x22 # (''}'' @ '']'')))"
    unfolding printf_output assms(3) buildEnv_values assms(4) by (rule refl)
  have rendered: \<open>?text = ''[{"name":"WooCommerceContainer","imageUri":"'' @
      val (repositoryUri ''WooCommerceRepo'') @ '':'' @ revision @ ''"}]''\<close>
    unfolding out assms(4) by simp
  have parsed: "parseDescriptor ?text = Some [(''WooCommerceContainer'', uri)]"
    unfolding rendered assms(4) by (rule descriptor_text[OF assms(1,2)])
  have A: "buildProjects CdkWoocommerceCicdStack = [buildProject containerBuildSpec]"
    by (simp add: CdkWoocommerceCicdStack_def)
  have B: "artifacts containerBuildSpec = FileList [''imagedefinitions.json'']"
    by (simp add: containerBuildSpec_def)
  have C: "(\<forall>c. ok c) \<longrightarrow> succeeded (buildStage ok env containerBuildSpec)"
  proof
    assume "\<forall>c. ok c"
    from container_build_succeeds[OF container_all_ok[OF this]]
    show "succeeded (buildStage ok env containerBuildSpec)"
      by simp
  qed
  have D: "\<forall>ex a. buildStage ok env containerBuildSpec = BuildSucceeded ex a \<longrightarrow>
            (\<exists>text. a = OutputFiles [(''imagedefinitions.json'', text)] \<and>
                    parseDescriptor text = Some [(''WooCommerceContainer'', uri)])"
  proof (intro allI impI)
    fix ex a assume "buildStage ok env containerBuildSpec = BuildSucceeded ex a"
    from buildStage_succeeded[OF this] container_artifact[of ok env]
    have "a = OutputFiles [(''imagedefinitions.json'', ?text)]"
      by simp
    with parsed show "\<exists>text. a = OutputFiles [(''imagedefinitions.json'', text)] \<and>
                    parseDescriptor text = Some [(''WooCommerceContainer'', uri)]"
      by blast
  qed
  have E: "suffix ('':'' @ revision) uri"
    unfolding assms(4) by (simp add: suffix_def)
  from A B C D E show ?thesis by blast
qed

theorem build_descriptor_witness:
  "plainValue ''registry.example/woo'' \<and> plainValue ''abc123'' \<and>
   (\<exists>ex text.
      buildStage (\<lambda>c. True)
        (buildEnv (\<lambda>t. ''registry.example/woo'') (buildProject containerBuildSpec)
           ''us-east-1'' ''abc123'')
        containerBuildSpec = BuildSucceeded ex (OutputFiles [(''imagedefinitions.json'', text)]) \<and>
      parseDescriptor text = Some [(''WooCommerceContainer'', ''registry.example/woo:abc123'')]) \<and>
   suffix '':abc123'' ''registry.example/woo:abc123''"
proof -
  let ?env = "buildEnv (\<lambda>t. ''registry.example/woo'') (buildProject containerBuildSpec)
           ''us-east-1'' ''abc123''"
  have p1: "plainValue ((\<lambda>t. ''registry.example/woo'') (repositoryUri ''WooCommerceRepo''))"
    and p2: "plainValue ''abc123''"
    by (simp_all add: plainValue_def nameChar_def)
  note t = build_descriptor[where val = "\<lambda>t. ''registry.example/woo''" and revision = "''abc123''"
      and region = "''us-east-1''" and ok = "\<lambda>c. True", OF p1 p2 refl refl]
  from t have s: "succeeded (buildStage (\<lambda>c. True) ?env containerBuildSpec)"
    by blast
  then obtain ex a where r: "buildStage (\<lambda>c. True) ?env containerBuildSpec = BuildSucceeded ex a"
    by (cases "buildStage (\<lambda>c. True) ?env containerBuildSpec") auto
  with t obtain body where "a = OutputFiles [(''imagedefinitions.json'', body)]"
    and "parseDescriptor body =
      Some [(''WooCommerceContainer'', ''registry.example/woo'' @ '':'' @ ''abc123'')]"
    by blast
  with r have "\<exists>ex text.
      buildStage (\<lambda>c. True) ?env containerBuildSpec =
        BuildSucceeded ex (OutputFiles [(''imagedefinitions.json'', text)]) \<and>
      parseDescriptor text = Some [(''WooCommerceContainer'', ''registry.example/woo:abc123'')]"
    by auto
  moreover from t have "suffix '':abc123'' ''registry.example/woo:abc123''"
    by simp
  ultimately show ?thesis using p1 p2 by blast
qed

end
